theory Spec2Isabelle
  imports Complex_Main "HOL-Library.Word" "HOL-Library.Sublist"
begin

unbundle bit_operations_syntax

section \<open>Python values and exceptions\<close>

text \<open>
  The values that travel through \<^verbatim>\<open>BlackBoxWrapper.run\<close> (task payloads, agent
  responses, stored records) are JSON-like Python objects. A \<^verbatim>\<open>dict\<close> is an
  association list in insertion order whose keys are strings; a Python float is
  represented by the rational number it denotes (the wrapper only ever writes the literal
  \<^verbatim>\<open>0.0\<close> and subtracts two clock readings).
\<close>

datatype pyval =
    PNone
  | PBool bool
  | PInt int
  | PFloat rat
  | PStr string
  | PList "pyval list"
  | PDict "(string \<times> pyval) list"

type_synonym pydict = "(string \<times> pyval) list"

text \<open>
  An exception carries its class, as far as the two \<^verbatim>\<open>except\<close> clauses of
  \<^verbatim>\<open>run\<close> tell classes apart, and the text \<^verbatim>\<open>str(e)\<close>.
  \<open>NonException\<close> stands for the classes that derive from \<^verbatim>\<open>BaseException\<close>
  but not from \<^verbatim>\<open>Exception\<close> (\<^verbatim>\<open>KeyboardInterrupt\<close>,
  \<^verbatim>\<open>SystemExit\<close>, \<^verbatim>\<open>asyncio.CancelledError\<close>).
\<close>

datatype exc_class = TypeError | AttributeError | OtherException | NonException

datatype exn = Exc exc_class string

fun exc_str :: "exn \<Rightarrow> string" where
  "exc_str (Exc c msg) = msg"

fun is_TypeError :: "exn \<Rightarrow> bool" where
  "is_TypeError (Exc c msg) = (c = TypeError)"

fun is_Exception :: "exn \<Rightarrow> bool" where
  "is_Exception (Exc c msg) = (c \<noteq> NonException)"

text \<open>\<^verbatim>\<open>d.get(k, default)\<close> and \<^verbatim>\<open>d[k] = v\<close> on an insertion-ordered dict.\<close>

definition dict_get :: "pydict \<Rightarrow> string \<Rightarrow> pyval \<Rightarrow> pyval" where
  "dict_get kvs k dflt = (case map_of kvs k of Some v \<Rightarrow> v | None \<Rightarrow> dflt)"

fun dict_set :: "string \<Rightarrow> pyval \<Rightarrow> pydict \<Rightarrow> pydict" where
  "dict_set k v [] = [(k, v)]"
| "dict_set k v (p # ps) = (if fst p = k then (k, v) # ps else p # dict_set k v ps)"

section \<open>The data of the wrapper\<close>

text \<open>\<^verbatim>\<open>Policy\<close>, as far as \<^verbatim>\<open>wrapper.py\<close> reads it.\<close>

record Policy =
  black_box :: bool
  keep_hashes :: bool
  include_code_sha :: bool
  include_policy_hash :: bool
  break_glass_request_ids :: "string set"

text \<open>The dataclass \<^verbatim>\<open>BlackBoxResult\<close>, field by field.\<close>

record BlackBoxResult =
  request_id :: string
  status :: string
  result :: pyval
  traces :: pyval
  latency_ms :: int
  cost_cents :: pyval
  input_hash :: "string option"
  output_hash :: "string option"
  attestation :: "pydict option"

text \<open>The fields of a \<^verbatim>\<open>BlackBoxWrapper\<close> instance that are plain data.\<close>

record wrapper =
  policy :: Policy
  use_enhanced_pii :: bool

text \<open>
  The collaborators of the wrapper. None of them is defined in \<^verbatim>\<open>wrapper.py\<close>;
  each is a parameter of the model.
  \<^item> \<open>agent_has_run\<close> is \<^verbatim>\<open>hasattr(self.agent, "run")\<close>, \<open>agent_type\<close> is the
    text of \<^verbatim>\<open>type(self.agent)\<close>, and \<open>agent_run st task kw\<close> is the evaluation
    of \<^verbatim>\<open>await self.agent.run(task, **kw)\<close> in agent state \<open>st\<close>, argument
    binding included: it raises or returns a value, and leaves a new agent state.
  \<^item> \<open>storage_store_outcome st rec\<close> is \<^verbatim>\<open>await self.storage.store_outcome(rec)\<close>:
    it may raise, and leaves a new storage state.
  \<^item> \<open>pii_redact\<close> is \<^verbatim>\<open>self.pii_redactor.redact\<close>, a function from values to values.
  \<^item> \<open>attestation_generate\<close> is \<^verbatim>\<open>self.attestation_gen.generate\<close>, returning a dict.
  \<^item> \<open>str_encode\<close> is \<^verbatim>\<open>str(data).encode()\<close> and \<open>sha256\<close> is the digest of
    \<^verbatim>\<open>hashlib.sha256\<close>, 256 bits wide.

  The agent and the storage may raise and have a state of their own. The redactor, the
  generator, the encoding and the digest are functions: they return a value for every
  argument and change nothing.
\<close>

record ('a, 's) collaborators =
  agent_has_run :: bool
  agent_type :: string
  agent_run :: "'a \<Rightarrow> string \<Rightarrow> pydict \<Rightarrow> (exn + pyval) \<times> 'a"
  storage_store_outcome :: "'s \<Rightarrow> pyval \<Rightarrow> exn option \<times> 's"
  pii_redact :: "pyval \<Rightarrow> pyval"
  attestation_generate :: "string \<Rightarrow> string option \<Rightarrow> string option \<Rightarrow> pydict"
  str_encode :: "pyval \<Rightarrow> 8 word list"
  sha256 :: "8 word list \<Rightarrow> 256 word"

text \<open>
  What \<^verbatim>\<open>run\<close> reads from the clock: \<^verbatim>\<open>time.time()\<close> at entry (line 78), on
  the success path (line 106) and in the handler (line 153), in seconds, and the three
  texts of \<^verbatim>\<open>datetime.now(UTC).isoformat()\<close> (lines 120, 137 and 161).
\<close>

record clock =
  time_start :: rat
  time_success :: rat
  time_error :: rat
  now_success :: string
  now_break_glass :: string
  now_error :: string

text \<open>
  The Metrics collaborator is an append-only log of the notifications it received; a
  notification does not raise.
  The state of one request: the states of agent and storage, every call made to
  \<^verbatim>\<open>agent.run\<close> (task and keyword arguments), every call made to
  \<^verbatim>\<open>store_outcome\<close> (the record, and whether the call returned normally), and the
  metrics log.
\<close>

datatype metric_event = BreakGlass | TraceStrip | Request string int pyval

record ('a, 's) world =
  agent_state :: 'a
  agent_calls :: "(string \<times> pydict) list"
  storage_state :: 's
  store_calls :: "(pyval \<times> bool) list"
  metrics_log :: "metric_event list"

section \<open>The operations of \<^verbatim>\<open>wrapper.py\<close>\<close>

text \<open>\<^verbatim>\<open>_parse_agent_result\<close> (lines 178 to 184).\<close>

fun parse_agent_result :: "pyval \<Rightarrow> pyval \<times> pyval \<times> pyval" where
  "parse_agent_result (PDict kvs) =
     (dict_get kvs ''result'' (PDict kvs),
      dict_get kvs ''traces'' PNone,
      dict_get kvs ''cost_cents'' (PFloat 0))"
| "parse_agent_result agent_result = (agent_result, PNone, PFloat 0)"

text \<open>
  \<^verbatim>\<open>hexdigest()\<close>: the 64 hexadecimal digits of the digest, most significant first,
  in lower case.
\<close>

definition hex_digit :: "nat \<Rightarrow> char" where
  "hex_digit n = ''0123456789abcdef'' ! n"

definition hexdigest :: "256 word \<Rightarrow> string" where
  "hexdigest w = map (\<lambda>i. hex_digit (unat (drop_bit (4 * i) w AND 15))) (rev [0..<64])"

text \<open>\<^verbatim>\<open>_compute_hash\<close> (lines 186 to 188).\<close>

definition compute_hash :: "('a, 's) collaborators \<Rightarrow> pyval \<Rightarrow> string" where
  "compute_hash d data = hexdigest (sha256 d (str_encode d data))"

text \<open>\<^verbatim>\<open>int((time.time() - start_time) * 1000)\<close>: \<^verbatim>\<open>int\<close> truncates towards zero.\<close>

definition elapsed_ms :: "rat \<Rightarrow> rat \<Rightarrow> int" where
  "elapsed_ms t0 t1 =
     (let ms = (t1 - t0) * 1000 in if 0 \<le> ms then \<lfloor>ms\<rfloor> else \<lceil>ms\<rceil>)"

definition record_metric :: "metric_event \<Rightarrow> ('a, 's) world \<Rightarrow> ('a, 's) world" where
  "record_metric ev w = w\<lparr>metrics_log := metrics_log w @ [ev]\<rparr>"

text \<open>One evaluation of \<^verbatim>\<open>await self.agent.run(task, **kw)\<close>.\<close>

definition call_agent ::
  "('a, 's) collaborators \<Rightarrow> string \<Rightarrow> pydict \<Rightarrow> ('a, 's) world
     \<Rightarrow> (exn + pyval) \<times> ('a, 's) world" where
  "call_agent d task kw w =
     (case agent_run d (agent_state w) task kw of
        (r, st) \<Rightarrow> (r, w\<lparr>agent_state := st, agent_calls := agent_calls w @ [(task, kw)]\<rparr>))"

text \<open>
  Lines 90 to 96: the call with the payload and the extra keyword arguments, the retry
  with the task alone after a \<^verbatim>\<open>TypeError\<close>, and the \<^verbatim>\<open>AttributeError\<close> for an
  agent without \<^verbatim>\<open>run\<close>.
\<close>

definition invoke_agent ::
  "('a, 's) collaborators \<Rightarrow> string \<Rightarrow> pydict \<Rightarrow> ('a, 's) world
     \<Rightarrow> (exn + pyval) \<times> ('a, 's) world" where
  "invoke_agent d task kw w =
     (if agent_has_run d then
        (case call_agent d task kw w of
           (Inl e, w1) \<Rightarrow> if is_TypeError e then call_agent d task [] w1 else (Inl e, w1)
         | (Inr v, w1) \<Rightarrow> (Inr v, w1))
      else (Inl (Exc AttributeError (''Agent '' @ agent_type d @ '' has no run() method'')), w))"

text \<open>One evaluation of \<^verbatim>\<open>await self.storage.store_outcome(rec)\<close>.\<close>

definition store_outcome ::
  "('a, 's) collaborators \<Rightarrow> pyval \<Rightarrow> ('a, 's) world \<Rightarrow> exn option \<times> ('a, 's) world" where
  "store_outcome d rec w =
     (case storage_store_outcome d (storage_state w) rec of
        (r, st) \<Rightarrow> (r, w\<lparr>storage_state := st, store_calls := store_calls w @ [(rec, r = None)]\<rparr>))"

definition opt_str :: "string option \<Rightarrow> pyval" where
  "opt_str h = (case h of None \<Rightarrow> PNone | Some s \<Rightarrow> PStr s)"

text \<open>The record written on the success path (lines 112 to 122).\<close>

definition success_record ::
  "string \<Rightarrow> string option \<Rightarrow> string option \<Rightarrow> int \<Rightarrow> pyval \<Rightarrow> string \<Rightarrow> pyval" where
  "success_record rid ih oh lat cost now =
     PDict [(''request_id'', PStr rid),
            (''status'', PStr ''success''),
            (''input_hash'', opt_str ih),
            (''output_hash'', opt_str oh),
            (''latency_ms'', PInt lat),
            (''cost_cents'', cost),
            (''created_at'', PStr now)]"

text \<open>The record written by the handler (lines 155 to 163).\<close>

definition error_record :: "string \<Rightarrow> string \<Rightarrow> int \<Rightarrow> string \<Rightarrow> pyval" where
  "error_record rid msg lat now =
     PDict [(''request_id'', PStr rid),
            (''status'', PStr ''error''),
            (''error'', PStr msg),
            (''latency_ms'', PInt lat),
            (''created_at'', PStr now)]"

text \<open>The result returned by the handler (lines 166 to 176).\<close>

definition error_result :: "string \<Rightarrow> string \<Rightarrow> int \<Rightarrow> BlackBoxResult" where
  "error_result rid msg lat =
     \<lparr>request_id = rid, status = ''error'', result = PDict [(''error'', PStr msg)],
      traces = PNone, latency_ms = lat, cost_cents = PInt 0,
      input_hash = None, output_hash = None,
      attestation = Some [(''error'', PStr msg)]\<rparr>"

text \<open>Lines 126 to 138: the attestation, annotated for a break-glass request.\<close>

definition make_attestation ::
  "('a, 's) collaborators \<Rightarrow> Policy \<Rightarrow> clock \<Rightarrow> string \<Rightarrow> bool
     \<Rightarrow> string option \<Rightarrow> string option \<Rightarrow> pydict option" where
  "make_attestation d pol clk rid is_break_glass ih oh =
     (if include_code_sha pol \<or> include_policy_hash pol then
        (let att = attestation_generate d rid ih oh in
         Some (if is_break_glass
               then dict_set ''break_glass''
                      (PDict [(''enabled'', PBool True),
                              (''reason'', PStr ''Request ID in break_glass_request_ids''),
                              (''timestamp'', PStr (now_break_glass clk))]) att
               else att))
      else None)"

text \<open>
  \<^verbatim>\<open>self._compute_hash(x) if self.policy.keep_hashes else None\<close> (lines 88 and 104),
  and the redacted input of line 87.
\<close>

definition hash_if_kept :: "('a, 's) collaborators \<Rightarrow> Policy \<Rightarrow> pyval \<Rightarrow> string option" where
  "hash_if_kept d pol data = (if keep_hashes pol then Some (compute_hash d data) else None)"

definition redacted_input :: "('a, 's) collaborators \<Rightarrow> string \<Rightarrow> pydict \<Rightarrow> pyval" where
  "redacted_input d task payload =
     pii_redact d (PDict [(''task'', PStr task), (''payload'', PDict payload)])"

text \<open>
  Lines 98 to 150, the rest of the \<^verbatim>\<open>try\<close> block once the agent has returned
  \<open>agent_result\<close>. \<open>Inl e\<close> is the exception the block raises, \<open>Inr r\<close> the result it
  returns.
\<close>

definition run_finish ::
  "('a, 's) collaborators \<Rightarrow> wrapper \<Rightarrow> clock \<Rightarrow> string \<Rightarrow> bool \<Rightarrow> string option
     \<Rightarrow> pyval \<Rightarrow> ('a, 's) world \<Rightarrow> (exn + BlackBoxResult) \<times> ('a, 's) world" where
  "run_finish d self clk rid is_break_glass ih agent_result w1 =
     (case parse_agent_result agent_result of
        (res, trs, cost) \<Rightarrow>
          (let pol = policy self;
               strip = (black_box pol \<and> \<not> is_break_glass);
               trs' = (if strip then PNone else trs);
               w2 = (if strip then record_metric TraceStrip w1 else w1);
               oh = hash_if_kept d pol res;
               lat = elapsed_ms (time_start clk) (time_success clk);
               res' = (if use_enhanced_pii self then pii_redact d res else res)
           in case store_outcome d (success_record rid ih oh lat cost (now_success clk)) w2 of
                (Some e, w3) \<Rightarrow> (Inl e, w3)
              | (None, w3) \<Rightarrow>
                  (Inr \<lparr>request_id = rid, status = ''success'', result = res',
                        traces = trs', latency_ms = lat, cost_cents = cost,
                        input_hash = ih, output_hash = oh,
                        attestation = make_attestation d pol clk rid is_break_glass ih oh\<rparr>,
                   record_metric (Request ''success'' lat cost) w3)))"

text \<open>The body of the \<^verbatim>\<open>try\<close> block (lines 87 to 150).\<close>

definition run_try ::
  "('a, 's) collaborators \<Rightarrow> wrapper \<Rightarrow> clock \<Rightarrow> string \<Rightarrow> string \<Rightarrow> pydict \<Rightarrow> pydict
     \<Rightarrow> bool \<Rightarrow> ('a, 's) world \<Rightarrow> (exn + BlackBoxResult) \<times> ('a, 's) world" where
  "run_try d self clk rid task payload kwargs is_break_glass w =
     (let ih = hash_if_kept d (policy self) (redacted_input d task payload)
      in case invoke_agent d task (payload @ kwargs) w of
           (Inl e, w1) \<Rightarrow> (Inl e, w1)
         | (Inr agent_result, w1) \<Rightarrow> run_finish d self clk rid is_break_glass ih agent_result w1)"

text \<open>The handler \<^verbatim>\<open>except Exception as e\<close> (lines 152 to 176).\<close>

definition run_except ::
  "('a, 's) collaborators \<Rightarrow> clock \<Rightarrow> string \<Rightarrow> exn \<Rightarrow> ('a, 's) world
     \<Rightarrow> (exn + BlackBoxResult) \<times> ('a, 's) world" where
  "run_except d clk rid e w =
     (let lat = elapsed_ms (time_start clk) (time_error clk)
      in case store_outcome d (error_record rid (exc_str e) lat (now_error clk)) w of
           (Some e', w1) \<Rightarrow> (Inl e', w1)
         | (None, w1) \<Rightarrow>
             (Inr (error_result rid (exc_str e) lat),
              record_metric (Request ''error'' lat (PInt 0)) w1))"

text \<open>
  Lines 78 to 84: \<^verbatim>\<open>payload or {}\<close>, the break-glass test and its notification.
\<close>

definition payload_or_empty :: "pydict option \<Rightarrow> pydict" where
  "payload_or_empty payload = (case payload of None \<Rightarrow> [] | Some kvs \<Rightarrow> kvs)"

definition run_enter :: "wrapper \<Rightarrow> string \<Rightarrow> ('a, 's) world \<Rightarrow> ('a, 's) world" where
  "run_enter self rid w =
     (if rid \<in> break_glass_request_ids (policy self) then record_metric BreakGlass w else w)"

text \<open>
  \<^verbatim>\<open>BlackBoxWrapper.run\<close> (lines 75 to 176). \<open>Inr r\<close> is the returned
  \<^verbatim>\<open>BlackBoxResult\<close>, \<open>Inl e\<close> an exception that leaves \<^verbatim>\<open>run\<close>; the second
  component is the state the request leaves behind.
\<close>

definition run ::
  "('a, 's) collaborators \<Rightarrow> wrapper \<Rightarrow> clock \<Rightarrow> ('a, 's) world
     \<Rightarrow> string \<Rightarrow> string \<Rightarrow> pydict option \<Rightarrow> pydict
     \<Rightarrow> (exn + BlackBoxResult) \<times> ('a, 's) world" where
  "run d self clk w rid task payload kwargs =
     (let payload' = payload_or_empty payload;
          is_break_glass = (rid \<in> break_glass_request_ids (policy self))
      in case run_try d self clk rid task payload' kwargs is_break_glass (run_enter self rid w) of
           (Inr r, w1) \<Rightarrow> (Inr r, w1)
         | (Inl e, w1) \<Rightarrow> if is_Exception e then run_except d clk rid e w1 else (Inl e, w1))"

section \<open>The PII redaction engine\<close>

text \<open>
  Modelled from the spec: the PII catalogue of the redaction engine
  (\<^verbatim>\<open>EnhancedPIIRedactor\<close> of \<^verbatim>\<open>pii_patterns.py\<close> and \<^verbatim>\<open>PIIRedactor\<close> of
  \<^verbatim>\<open>filters.py\<close>, neither of which is among the sources). The catalogue is an ordered
  list of pairs of a type name and a detection rule; a detection rule says which texts are
  instances of its PII type. The spec names the types and not the rules, so the catalogue
  is a parameter of the engine.
\<close>

type_synonym rule = "string \<Rightarrow> bool"

type_synonym catalogue = "(string \<times> rule) list"

text \<open>
  Modelled from the spec: the fixed marker token of a PII type, as in
  \<^verbatim>\<open>[EMAIL_REDACTED]\<close> for the type \<^verbatim>\<open>email\<close>.
\<close>

definition upper_char :: "char \<Rightarrow> char" where
  "upper_char c =
     (case map_of (zip ''abcdefghijklmnopqrstuvwxyz'' ''ABCDEFGHIJKLMNOPQRSTUVWXYZ'') c of
        Some u \<Rightarrow> u
      | None \<Rightarrow> c)"

definition marker :: "string \<Rightarrow> string" where
  "marker name = ''['' @ map upper_char name @ ''_REDACTED]''"

text \<open>
  Modelled from the spec: the match of a rule at the beginning of a text, taken to be
  the longest non-empty instance of the PII type that starts there.
\<close>

definition match_len :: "rule \<Rightarrow> string \<Rightarrow> nat option" where
  "match_len r s = find (\<lambda>n. r (take n s)) (rev [1..<Suc (length s)])"

text \<open>
  Modelled from the spec: "every matched substring is replaced by a fixed marker token",
  for one rule. The text is scanned from left to right and the scan resumes behind a
  replaced match, so that the rule does not retry over text it already replaced.
\<close>

fun replace_all :: "rule \<Rightarrow> string \<Rightarrow> string \<Rightarrow> string" where
  "replace_all r m [] = []"
| "replace_all r m (c # cs) =
     (case match_len r (c # cs) of
        None \<Rightarrow> c # replace_all r m cs
      | Some n \<Rightarrow> m @ replace_all r m (drop (n - 1) cs))"

text \<open>
  Modelled from the spec: the rules are applied in catalogue order, each to the text the
  earlier ones have left, so that for overlapping matches the first matching rule wins.
\<close>

definition redact_text :: "catalogue \<Rightarrow> string \<Rightarrow> string" where
  "redact_text cat s = foldl (\<lambda>t (name, r). replace_all r (marker name) t) s cat"

text \<open>
  Modelled from the spec: \<^verbatim>\<open>redact(value)\<close> returns a value of the same shape;
  strings are redacted, mappings and sequences are traversed, and the other leaves pass
  through unchanged.
\<close>

primrec redact :: "catalogue \<Rightarrow> pyval \<Rightarrow> pyval" where
  "redact cat PNone = PNone"
| "redact cat (PBool b) = PBool b"
| "redact cat (PInt i) = PInt i"
| "redact cat (PFloat q) = PFloat q"
| "redact cat (PStr s) = PStr (redact_text cat s)"
| "redact cat (PList vs) = PList (map (redact cat) vs)"
| "redact cat (PDict kvs) = PDict (map (map_prod id (redact cat)) kvs)"

text \<open>
  Modelled from the spec: the invariant of the catalogue, "no rule matches a type-marker
  token". A text \<open>v\<close> overlaps a token \<open>m\<close> when, in some string, an occurrence of \<open>v\<close>
  shares at least one position with an occurrence of \<open>m\<close>: \<open>v\<close> contains a non-empty piece
  \<open>b\<close> of \<open>m\<close>, which is the beginning of \<open>m\<close> if \<open>v\<close> goes on to the left of it and the end
  of \<open>m\<close> if \<open>v\<close> goes on to the right. The catalogue avoids its markers when no text that
  one of its rules matches overlaps one of its marker tokens.
\<close>

definition overlaps :: "string \<Rightarrow> string \<Rightarrow> bool" where
  "overlaps v m \<longleftrightarrow>
     (\<exists>x b y. v = x @ b @ y \<and> b \<noteq> [] \<and> sublist b m \<and>
              (x = [] \<or> prefix b m) \<and> (y = [] \<or> suffix b m))"

definition avoids_markers :: "catalogue \<Rightarrow> bool" where
  "avoids_markers cat \<longleftrightarrow>
     (\<forall>(n, r) \<in> set cat. \<forall>(n', r') \<in> set cat. \<forall>v. r v \<longrightarrow> \<not> overlaps v (marker n'))"

text \<open>A text is clean for a rule when the rule matches none of its non-empty substrings.\<close>

definition clean :: "rule \<Rightarrow> string \<Rightarrow> bool" where
  "clean r t \<longleftrightarrow> (\<forall>v. v \<noteq> [] \<longrightarrow> sublist v t \<longrightarrow> \<not> r v)"

section \<open>Concrete collaborators\<close>

text \<open>
  Collaborators on which the model is run. The agents do not use their state. The first
  returns the response of the scenario
  \<^verbatim>\<open>{"result": "ok", "traces": ["a","b"], "cost_cents": 1.5}\<close>; the second echoes its
  keyword arguments as its result, as the handler of the demonstration does with the
  fields of its payload; the third has the signature \<^verbatim>\<open>run(self, task)\<close> and so
  raises \<^verbatim>\<open>TypeError\<close> on any keyword argument; the fourth always raises; the fifth
  is cancelled while it runs (\<^verbatim>\<open>asyncio.CancelledError\<close> is not an
  \<^verbatim>\<open>Exception\<close>).
\<close>

definition scenario_agent :: "unit \<Rightarrow> string \<Rightarrow> pydict \<Rightarrow> (exn + pyval) \<times> unit" where
  "scenario_agent st task kw =
     (Inr (PDict [(''result'', PStr ''ok''),
                  (''traces'', PList [PStr ''a'', PStr ''b'']),
                  (''cost_cents'', PFloat (3 / 2))]), st)"

definition echo_agent :: "unit \<Rightarrow> string \<Rightarrow> pydict \<Rightarrow> (exn + pyval) \<times> unit" where
  "echo_agent st task kw =
     (Inr (PDict [(''status'', PStr ''success''), (''result'', PDict kw),
                  (''traces'', PList [PStr task])]), st)"

definition task_only_agent :: "unit \<Rightarrow> string \<Rightarrow> pydict \<Rightarrow> (exn + pyval) \<times> unit" where
  "task_only_agent st task kw =
     (if kw = [] then (Inr (PStr task), st)
      else (Inl (Exc TypeError ''run() got an unexpected keyword argument''), st))"

definition failing_agent :: "unit \<Rightarrow> string \<Rightarrow> pydict \<Rightarrow> (exn + pyval) \<times> unit" where
  "failing_agent st task kw = (Inl (Exc OtherException ''boom''), st)"

definition cancelled_agent :: "unit \<Rightarrow> string \<Rightarrow> pydict \<Rightarrow> (exn + pyval) \<times> unit" where
  "cancelled_agent st task kw = (Inl (Exc NonException ''cancelled''), st)"

text \<open>
  Four storage backends: one that keeps every record, one that is down, one whose
  first write fails and whose later writes succeed (its state counts the calls), and one
  whose write is cancelled.
\<close>

definition memory_store :: "pyval list \<Rightarrow> pyval \<Rightarrow> exn option \<times> pyval list" where
  "memory_store st rec = (None, st @ [rec])"

definition down_store :: "pyval list \<Rightarrow> pyval \<Rightarrow> exn option \<times> pyval list" where
  "down_store st rec = (Some (Exc OtherException ''storage down''), st)"

definition flaky_store :: "nat \<Rightarrow> pyval \<Rightarrow> exn option \<times> nat" where
  "flaky_store n rec =
     (if n = 0 then Some (Exc OtherException ''write failed'') else None, Suc n)"

definition cancelled_store :: "pyval list \<Rightarrow> pyval \<Rightarrow> exn option \<times> pyval list" where
  "cancelled_store st rec = (Some (Exc NonException ''cancelled''), st)"

text \<open>
  A small redactor that replaces the string \<^verbatim>\<open>a@b.com\<close> wherever it is a leaf of
  the value, a generator that returns the identifiers it is given together with the
  code identifier of line 72, and stand-ins for the encoding and the digest (the bytes of
  a string, nothing for other values; the bytes read as one big-endian number).
\<close>

primrec mask_email :: "pyval \<Rightarrow> pyval" where
  "mask_email PNone = PNone"
| "mask_email (PBool b) = PBool b"
| "mask_email (PInt i) = PInt i"
| "mask_email (PFloat q) = PFloat q"
| "mask_email (PStr s) = PStr (if s = ''a@b.com'' then ''[EMAIL_REDACTED]'' else s)"
| "mask_email (PList vs) = PList (map mask_email vs)"
| "mask_email (PDict kvs) = PDict (map (map_prod id mask_email) kvs)"

definition plain_generate :: "string \<Rightarrow> string option \<Rightarrow> string option \<Rightarrow> pydict" where
  "plain_generate rid ih oh =
     [(''request_id'', PStr rid), (''input_hash'', opt_str ih), (''output_hash'', opt_str oh),
      (''code_sha'', PStr ''fake_sha_for_demo'')]"

fun standin_encode :: "pyval \<Rightarrow> 8 word list" where
  "standin_encode (PStr s) = map (\<lambda>c. of_nat (of_char c)) s"
| "standin_encode v = []"

definition standin_digest :: "8 word list \<Rightarrow> 256 word" where
  "standin_digest bs = of_nat (foldl (\<lambda>a b. a * 256 + unat b) 0 bs)"

definition collab ::
  "(unit \<Rightarrow> string \<Rightarrow> pydict \<Rightarrow> (exn + pyval) \<times> unit) \<Rightarrow> ('s \<Rightarrow> pyval \<Rightarrow> exn option \<times> 's)
     \<Rightarrow> (unit, 's) collaborators" where
  "collab ag st =
     \<lparr>agent_has_run = True, agent_type = ''<class Agent>'', agent_run = ag,
      storage_store_outcome = st, pii_redact = mask_email,
      attestation_generate = plain_generate, str_encode = standin_encode,
      sha256 = standin_digest\<rparr>"

definition fresh :: "'s \<Rightarrow> (unit, 's) world" where
  "fresh st = \<lparr>agent_state = (), agent_calls = [], storage_state = st, store_calls = [],
              metrics_log = []\<rparr>"

definition mk_policy :: "bool \<Rightarrow> bool \<Rightarrow> bool \<Rightarrow> string set \<Rightarrow> Policy" where
  "mk_policy bb kh att ids =
     \<lparr>black_box = bb, keep_hashes = kh, include_code_sha = att, include_policy_hash = att,
      break_glass_request_ids = ids\<rparr>"

definition mk_wrapper :: "Policy \<Rightarrow> bool \<Rightarrow> wrapper" where
  "mk_wrapper pol enhanced = \<lparr>policy = pol, use_enhanced_pii = enhanced\<rparr>"

definition test_clock :: clock where
  "test_clock =
     \<lparr>time_start = 100, time_success = 100 + 1 / 4, time_error = 100 + 1 / 8,
      now_success = ''2024-10-06T14:30:22+00:00'',
      now_break_glass = ''2024-10-06T14:30:23+00:00'',
      now_error = ''2024-10-06T14:30:21+00:00''\<rparr>"

text \<open>
  A catalogue of two rules on which the redaction engine is run: a handle is \<^verbatim>\<open>@\<close>
  followed by lower-case letters, a pin is a run of digits.
\<close>

fun handle :: rule where
  "handle [] \<longleftrightarrow> False"
| "handle (c # cs) \<longleftrightarrow>
     c = CHR ''@'' \<and> cs \<noteq> [] \<and> (\<forall>x \<in> set cs. x \<in> set ''abcdefghijklmnopqrstuvwxyz'')"

definition digits :: rule where
  "digits v \<longleftrightarrow> v \<noteq> [] \<and> (\<forall>c \<in> set v. c \<in> set ''0123456789'')"

definition toy_catalogue :: catalogue where
  "toy_catalogue = [(''handle'', handle), (''pin'', digits)]"

section \<open>Classification of the agent's return value\<close>

lemma dict_get_map_of:
  "dict_get kvs k dflt = (case map_of kvs k of Some v \<Rightarrow> v | None \<Rightarrow> dflt)"
  by (simp add: dict_get_def)

text \<open>
  Claim C5, as stated, fails: a mapping without a \<^verbatim>\<open>result\<close> key becomes the result as
  a whole, yet its \<^verbatim>\<open>traces\<close> and \<^verbatim>\<open>cost_cents\<close> entries are still extracted, so
  the outcome is not "no traces and zero cost".
\<close>

theorem C5_mapping_without_result_counterexample:
  "parse_agent_result (PDict [(''traces'', PList [PStr ''step1'']), (''cost_cents'', PInt 5)])
     = (PDict [(''traces'', PList [PStr ''step1'']), (''cost_cents'', PInt 5)],
        PList [PStr ''step1''], PInt 5)"
  by (simp add: dict_get_def)

text \<open>
  Claim C5, amended: for a mapping, \<^verbatim>\<open>result\<close> is the value under the key
  \<^verbatim>\<open>result\<close> when the key is present and the entire mapping otherwise, \<^verbatim>\<open>traces\<close> is
  the value under \<^verbatim>\<open>traces\<close> (absent when the key is missing) and the cost is the value
  under \<^verbatim>\<open>cost_cents\<close> (\<^verbatim>\<open>0.0\<close> when the key is missing), whether or not there is a
  \<^verbatim>\<open>result\<close> key; any value that is not a mapping becomes the result, with no traces and
  zero cost.
\<close>

theorem C5_parse_agent_result_classification:
  "parse_agent_result v =
     (case v of
        PDict kvs \<Rightarrow>
          (case map_of kvs ''result'' of Some r \<Rightarrow> r | None \<Rightarrow> v,
           case map_of kvs ''traces'' of Some t \<Rightarrow> t | None \<Rightarrow> PNone,
           case map_of kvs ''cost_cents'' of Some c \<Rightarrow> c | None \<Rightarrow> PFloat 0)
      | _ \<Rightarrow> (v, PNone, PFloat 0))"
  by (cases v) (auto simp: dict_get_map_of split: option.splits)

theorem C5_parse_agent_result_classification_witness:
  "parse_agent_result (PDict [(''result'', PStr ''ok''), (''traces'', PList [PStr ''a'', PStr ''b'']),
                              (''cost_cents'', PFloat (3 / 2))])
     = (PStr ''ok'', PList [PStr ''a'', PStr ''b''], PFloat (3 / 2))
   \<and> parse_agent_result (PDict [(''result'', PStr ''ok'')]) = (PStr ''ok'', PNone, PFloat 0)
   \<and> parse_agent_result (PList [PStr ''ok'']) = (PList [PStr ''ok''], PNone, PFloat 0)"
  using C5_parse_agent_result_classification
          [of "PDict [(''result'', PStr ''ok''), (''traces'', PList [PStr ''a'', PStr ''b'']),
                      (''cost_cents'', PFloat (3 / 2))]"]
        C5_parse_agent_result_classification [of "PDict [(''result'', PStr ''ok'')]"]
        C5_parse_agent_result_classification [of "PList [PStr ''ok'']"]
  by simp

section \<open>How one request unfolds\<close>

lemma invoke_agent_keeps:
  "storage_state (snd (invoke_agent d task kw w)) = storage_state w"
  "store_calls (snd (invoke_agent d task kw w)) = store_calls w"
  "metrics_log (snd (invoke_agent d task kw w)) = metrics_log w"
  by (auto simp: invoke_agent_def call_agent_def split: prod.splits sum.splits)

lemma run_enter_keeps:
  "agent_state (run_enter self rid w) = agent_state w"
  "agent_calls (run_enter self rid w) = agent_calls w"
  "storage_state (run_enter self rid w) = storage_state w"
  "store_calls (run_enter self rid w) = store_calls w"
  by (simp_all add: run_enter_def record_metric_def)

lemma run_enter_metrics:
  "metrics_log (run_enter self rid w) =
     metrics_log w @ (if rid \<in> break_glass_request_ids (policy self) then [BreakGlass] else [])"
  by (simp add: run_enter_def record_metric_def)

lemma invoke_agent_run_enter:
  "fst (invoke_agent d task kw (run_enter self rid w)) = fst (invoke_agent d task kw w)"
  by (auto simp: invoke_agent_def call_agent_def run_enter_def record_metric_def
           split: prod.splits sum.splits)



lemma run_except_eq:
  "run_except d clk rid e w =
     (case storage_store_outcome d (storage_state w)
             (error_record rid (exc_str e) (elapsed_ms (time_start clk) (time_error clk))
                (now_error clk)) of
        (None, st) \<Rightarrow>
          (Inr (error_result rid (exc_str e) (elapsed_ms (time_start clk) (time_error clk))),
           w\<lparr>storage_state := st,
             store_calls := store_calls w @
               [(error_record rid (exc_str e) (elapsed_ms (time_start clk) (time_error clk))
                   (now_error clk), True)],
             metrics_log := metrics_log w @
               [Request ''error'' (elapsed_ms (time_start clk) (time_error clk)) (PInt 0)]\<rparr>)
      | (Some e', st) \<Rightarrow>
          (Inl e',
           w\<lparr>storage_state := st,
             store_calls := store_calls w @
               [(error_record rid (exc_str e) (elapsed_ms (time_start clk) (time_error clk))
                   (now_error clk), False)]\<rparr>))"
  by (simp add: run_except_def store_outcome_def record_metric_def Let_def
           split: prod.splits option.splits)

lemma run_except_keeps:
  "agent_calls (snd (run_except d clk rid e w)) = agent_calls w"
  "count_list (metrics_log (snd (run_except d clk rid e w))) TraceStrip =
     count_list (metrics_log w) TraceStrip"
  "count_list (metrics_log (snd (run_except d clk rid e w))) BreakGlass =
     count_list (metrics_log w) BreakGlass"
  by (simp_all add: run_except_eq split: prod.splits option.splits)

lemma run_except_result:
  "fst (run_except d clk rid e w) = Inr r \<Longrightarrow>
     r = error_result rid (exc_str e) (elapsed_ms (time_start clk) (time_error clk))"
  by (auto simp: run_except_eq split: prod.splits option.splits)

lemma error_result_fields:
  "status (error_result rid msg lat) = ''error''"
  "traces (error_result rid msg lat) = PNone"
  "input_hash (error_result rid msg lat) = None"
  "output_hash (error_result rid msg lat) = None"
  by (simp_all add: error_result_def)

lemma run_finish_result:
  assumes "fst (run_finish d self clk rid bg ih v w1) = Inr r"
  shows "status r = ''success''"
    and "request_id r = rid"
    and "result r = (if use_enhanced_pii self then pii_redact d (fst (parse_agent_result v))
                     else fst (parse_agent_result v))"
    and "traces r = (if black_box (policy self) \<and> \<not> bg then PNone
                     else fst (snd (parse_agent_result v)))"
    and "cost_cents r = snd (snd (parse_agent_result v))"
    and "input_hash r = ih"
    and "output_hash r = hash_if_kept d (policy self) (fst (parse_agent_result v))"
    and "latency_ms r = elapsed_ms (time_start clk) (time_success clk)"
    and "attestation r = make_attestation d (policy self) clk rid bg ih
                           (hash_if_kept d (policy self) (fst (parse_agent_result v)))"
  using assms
  by (auto simp: run_finish_def Let_def split: prod.splits option.splits)

lemma run_finish_keeps:
  "agent_calls (snd (run_finish d self clk rid bg ih v w1)) = agent_calls w1"
  "count_list (metrics_log (snd (run_finish d self clk rid bg ih v w1))) TraceStrip =
     count_list (metrics_log w1) TraceStrip + (if black_box (policy self) \<and> \<not> bg then 1 else 0)"
  "count_list (metrics_log (snd (run_finish d self clk rid bg ih v w1))) BreakGlass =
     count_list (metrics_log w1) BreakGlass"
  by (auto simp: run_finish_def store_outcome_def record_metric_def Let_def
           split: prod.splits option.splits)

text \<open>The first write of a request whose agent returned.\<close>

lemma run_finish_store:
  "store_calls (snd (run_finish d self clk rid bg ih v w1)) =
     store_calls w1 @
       [(success_record rid ih (hash_if_kept d (policy self) (fst (parse_agent_result v)))
           (elapsed_ms (time_start clk) (time_success clk)) (snd (snd (parse_agent_result v)))
           (now_success clk),
         fst (storage_store_outcome d (storage_state w1)
           (success_record rid ih (hash_if_kept d (policy self) (fst (parse_agent_result v)))
              (elapsed_ms (time_start clk) (time_success clk)) (snd (snd (parse_agent_result v)))
              (now_success clk))) = None)]"
  "storage_state (snd (run_finish d self clk rid bg ih v w1)) =
     snd (storage_store_outcome d (storage_state w1)
           (success_record rid ih (hash_if_kept d (policy self) (fst (parse_agent_result v)))
              (elapsed_ms (time_start clk) (time_success clk)) (snd (snd (parse_agent_result v)))
              (now_success clk)))"
  "fst (run_finish d self clk rid bg ih v w1) = Inl e \<longleftrightarrow>
     fst (storage_store_outcome d (storage_state w1)
           (success_record rid ih (hash_if_kept d (policy self) (fst (parse_agent_result v)))
              (elapsed_ms (time_start clk) (time_success clk)) (snd (snd (parse_agent_result v)))
              (now_success clk))) = Some e"
  by (auto simp: run_finish_def store_outcome_def record_metric_def Let_def
           split: prod.splits option.splits)

lemma run_agent_ok:
  assumes "fst (invoke_agent d task (payload_or_empty payload @ kwargs) w) = Inr v"
  shows "run d self clk w rid task payload kwargs =
     (case run_finish d self clk rid (rid \<in> break_glass_request_ids (policy self))
             (hash_if_kept d (policy self) (redacted_input d task (payload_or_empty payload))) v
             (snd (invoke_agent d task (payload_or_empty payload @ kwargs) (run_enter self rid w))) of
        (Inr r, w2) \<Rightarrow> (Inr r, w2)
      | (Inl e, w2) \<Rightarrow> if is_Exception e then run_except d clk rid e w2 else (Inl e, w2))"
proof -
  have "fst (invoke_agent d task (payload_or_empty payload @ kwargs) (run_enter self rid w)) = Inr v"
    using assms by (simp add: invoke_agent_run_enter)
  then show ?thesis
    by (auto simp: run_def run_try_def Let_def split: prod.splits sum.splits)
qed

lemma run_agent_raises:
  assumes "fst (invoke_agent d task (payload_or_empty payload @ kwargs) w) = Inl e"
  shows "run d self clk w rid task payload kwargs =
     (if is_Exception e
      then run_except d clk rid e
             (snd (invoke_agent d task (payload_or_empty payload @ kwargs) (run_enter self rid w)))
      else (Inl e, snd (invoke_agent d task (payload_or_empty payload @ kwargs) (run_enter self rid w))))"
proof -
  have "fst (invoke_agent d task (payload_or_empty payload @ kwargs) (run_enter self rid w)) = Inl e"
    using assms by (simp add: invoke_agent_run_enter)
  then show ?thesis
    by (auto simp: run_def run_try_def Let_def split: prod.splits sum.splits)
qed

text \<open>A result with status success comes from the try block, after the agent returned.\<close>

lemma run_success:
  assumes "fst (run d self clk w rid task payload kwargs) = Inr r" and "status r = ''success''"
  shows "\<exists>v. fst (invoke_agent d task (payload_or_empty payload @ kwargs) w) = Inr v \<and>
           run d self clk w rid task payload kwargs =
             run_finish d self clk rid (rid \<in> break_glass_request_ids (policy self))
               (hash_if_kept d (policy self) (redacted_input d task (payload_or_empty payload))) v
               (snd (invoke_agent d task (payload_or_empty payload @ kwargs) (run_enter self rid w)))"
proof (cases "fst (invoke_agent d task (payload_or_empty payload @ kwargs) w)")
  case (Inl e)
  from assms show ?thesis
    unfolding run_agent_raises [OF Inl]
    by (auto split: if_splits dest!: run_except_result simp: error_result_fields)
next
  case (Inr v)
  from assms have "run d self clk w rid task payload kwargs =
             run_finish d self clk rid (rid \<in> break_glass_request_ids (policy self))
               (hash_if_kept d (policy self) (redacted_input d task (payload_or_empty payload))) v
               (snd (invoke_agent d task (payload_or_empty payload @ kwargs) (run_enter self rid w)))"
    unfolding run_agent_ok [OF Inr]
    by (auto split: prod.splits sum.splits if_splits dest!: run_except_result simp: error_result_fields)
  with Inr show ?thesis by blast
qed

section \<open>Evaluation on concrete collaborators\<close>

lemmas fixture_defs = collab_def fresh_def mk_policy_def mk_wrapper_def test_clock_def
  scenario_agent_def echo_agent_def task_only_agent_def failing_agent_def cancelled_agent_def
  memory_store_def down_store_def flaky_store_def cancelled_store_def plain_generate_def

lemmas run_defs = run_def run_try_def run_finish_def run_except_def run_enter_def
  invoke_agent_def call_agent_def store_outcome_def record_metric_def payload_or_empty_def
  hash_if_kept_def redacted_input_def make_attestation_def success_record_def error_record_def
  error_result_def opt_str_def dict_get_def elapsed_ms_def

section \<open>Outcomes of a request\<close>

lemma run_agent_ok_result:
  assumes "fst (invoke_agent d task (payload_or_empty payload @ kwargs) w) = Inr v"
    and "fst (run d self clk w rid task payload kwargs) = Inr r"
  shows "fst (run_finish d self clk rid (rid \<in> break_glass_request_ids (policy self))
               (hash_if_kept d (policy self) (redacted_input d task (payload_or_empty payload))) v
               (snd (invoke_agent d task (payload_or_empty payload @ kwargs) (run_enter self rid w))))
           = Inr r
         \<or> (\<exists>e. r = error_result rid (exc_str e) (elapsed_ms (time_start clk) (time_error clk)))"
  using assms(2) unfolding run_agent_ok [OF assms(1)]
  by (auto split: prod.splits sum.splits if_splits dest: run_except_result)

lemma run_break_glass_count:
  "count_list (metrics_log (snd (run d self clk w rid task payload kwargs))) BreakGlass =
     count_list (metrics_log w) BreakGlass +
       (if rid \<in> break_glass_request_ids (policy self) then 1 else 0)"
proof -
  let ?w1 = "snd (invoke_agent d task (payload_or_empty payload @ kwargs) (run_enter self rid w))"
  have base: "count_list (metrics_log ?w1) BreakGlass =
      count_list (metrics_log w) BreakGlass +
        (if rid \<in> break_glass_request_ids (policy self) then 1 else 0)"
    by (simp add: invoke_agent_keeps run_enter_metrics)
  show ?thesis
  proof (cases "fst (invoke_agent d task (payload_or_empty payload @ kwargs) w)")
    case (Inl e)
    show ?thesis
      unfolding run_agent_raises [OF Inl] using base
      by (simp add: run_except_keeps)
  next
    case (Inr v)
    let ?fin = "run_finish d self clk rid (rid \<in> break_glass_request_ids (policy self))
                  (hash_if_kept d (policy self) (redacted_input d task (payload_or_empty payload)))
                  v ?w1"
    have "count_list (metrics_log (snd (run d self clk w rid task payload kwargs))) BreakGlass =
        count_list (metrics_log (snd ?fin)) BreakGlass"
      unfolding run_agent_ok [OF Inr]
      by (cases ?fin; cases "fst ?fin") (auto simp: run_except_keeps)
    then show ?thesis
      using base by (simp add: run_finish_keeps)
  qed
qed

lemma map_of_dict_set: "map_of (dict_set k v kvs) k = Some v"
  by (induction kvs) auto

lemma make_attestation_break_glass:
  "make_attestation d pol clk rid True ih oh = Some a \<Longrightarrow>
     map_of a ''break_glass'' =
       Some (PDict [(''enabled'', PBool True),
                    (''reason'', PStr ''Request ID in break_glass_request_ids''),
                    (''timestamp'', PStr (now_break_glass clk))])"
  by (auto simp: make_attestation_def Let_def map_of_dict_set split: if_splits)

lemma make_attestation_None:
  "make_attestation d pol clk rid bg ih oh = None \<longleftrightarrow>
     \<not> (include_code_sha pol \<or> include_policy_hash pol)"
  by (simp add: make_attestation_def Let_def)

lemma run_try_raises:
  assumes "fst (run_try d self clk rid task (payload_or_empty payload) kwargs
                  (rid \<in> break_glass_request_ids (policy self)) (run_enter self rid w)) = Inl e"
  shows "run d self clk w rid task payload kwargs =
     (if is_Exception e
      then run_except d clk rid e
             (snd (run_try d self clk rid task (payload_or_empty payload) kwargs
                     (rid \<in> break_glass_request_ids (policy self)) (run_enter self rid w)))
      else (Inl e, snd (run_try d self clk rid task (payload_or_empty payload) kwargs
                     (rid \<in> break_glass_request_ids (policy self)) (run_enter self rid w))))"
  using assms by (auto simp: run_def Let_def split: prod.splits sum.splits)

lemma run_except_stored:
  assumes "fst (storage_store_outcome d (storage_state w)
                  (error_record rid (exc_str e) (elapsed_ms (time_start clk) (time_error clk))
                     (now_error clk))) = None"
  shows "fst (run_except d clk rid e w) =
           Inr (error_result rid (exc_str e) (elapsed_ms (time_start clk) (time_error clk)))"
    and "store_calls (snd (run_except d clk rid e w)) =
           store_calls w @
             [(error_record rid (exc_str e) (elapsed_ms (time_start clk) (time_error clk))
                 (now_error clk), True)]"
    and "metrics_log (snd (run_except d clk rid e w)) =
           metrics_log w @
             [Request ''error'' (elapsed_ms (time_start clk) (time_error clk)) (PInt 0)]"
  using assms
  by (cases "storage_store_outcome d (storage_state w)
                (error_record rid (exc_str e) (elapsed_ms (time_start clk) (time_error clk))
                   (now_error clk))";
      simp add: run_except_eq)+

lemma unat_nibble: "unat ((x :: 256 word) AND 15) < 16"
proof -
  have "x AND 15 \<le> 15" by (rule word_and_le1)
  then have "unat (x AND 15) \<le> unat (15 :: 256 word)" by (simp add: word_le_nat_alt)
  then show ?thesis by simp
qed

lemma hex_digit_in: "n < 16 \<Longrightarrow> hex_digit n \<in> set ''0123456789abcdef''"
  unfolding hex_digit_def by (rule nth_mem) simp

lemma hexdigest_valid:
  "length (hexdigest w) = 64 \<and> set (hexdigest w) \<subseteq> set ''0123456789abcdef''"
proof
  show "length (hexdigest w) = 64" by (simp add: hexdigest_def)
  show "set (hexdigest w) \<subseteq> set ''0123456789abcdef''"
    unfolding hexdigest_def using hex_digit_in [OF unat_nibble] by auto
qed

section \<open>Black-box suppression of traces\<close>

text \<open>
  Claim C1, as stated, fails in its second half: with \<^verbatim>\<open>black_box\<close> false the agent
  returns the traces \<^verbatim>\<open>["a", "b"]\<close>, the success-path \<^verbatim>\<open>store_outcome\<close> raises, the
  handler's one returns, and the returned result has \<^verbatim>\<open>traces = None\<close>.
\<close>

theorem C1_storage_failure_counterexample:
  "\<not> black_box (policy (mk_wrapper (mk_policy False True True {}) True))
   \<and> fst (invoke_agent (collab scenario_agent flaky_store) ''get weather''
          (payload_or_empty None @ []) (fresh 0))
     = Inr (PDict [(''result'', PStr ''ok''), (''traces'', PList [PStr ''a'', PStr ''b'']),
                   (''cost_cents'', PFloat (3 / 2))])
   \<and> fst (run (collab scenario_agent flaky_store)
          (mk_wrapper (mk_policy False True True {}) True) test_clock (fresh 0)
          ''req-1'' ''get weather'' None [])
     = Inr \<lparr>request_id = ''req-1'', status = ''error'',
            result = PDict [(''error'', PStr ''write failed'')], traces = PNone,
            latency_ms = 125, cost_cents = PInt 0, input_hash = None, output_hash = None,
            attestation = Some [(''error'', PStr ''write failed'')]\<rparr>"
  by (simp add: run_defs fixture_defs)

text \<open>
  Claim C1, amended. Whenever the wrapped agent returns normally (with \<open>v\<close>):
  \<^verbatim>\<open>record_trace_strip\<close> is invoked exactly once if \<^verbatim>\<open>policy.black_box\<close> is true and the
  request id is not a break-glass id, and not at all otherwise; in the first case every
  returned result has \<^verbatim>\<open>traces = None\<close>; in the second case the traces of the parsed
  agent response pass through unchanged to a result with status \<^verbatim>\<open>success\<close>.
\<close>

theorem C1_trace_suppression:
  assumes "fst (invoke_agent d task (payload_or_empty payload @ kwargs) w) = Inr v"
  shows "count_list (metrics_log (snd (run d self clk w rid task payload kwargs))) TraceStrip =
           count_list (metrics_log w) TraceStrip +
             (if black_box (policy self) \<and> rid \<notin> break_glass_request_ids (policy self)
              then 1 else 0)
       \<and> (\<forall>r. fst (run d self clk w rid task payload kwargs) = Inr r \<longrightarrow>
             (black_box (policy self) \<and> rid \<notin> break_glass_request_ids (policy self)
                \<longrightarrow> traces r = PNone) \<and>
             (\<not> (black_box (policy self) \<and> rid \<notin> break_glass_request_ids (policy self))
                \<and> status r = ''success''
                \<longrightarrow> traces r = fst (snd (parse_agent_result v))))"
proof -
  let ?bg = "rid \<in> break_glass_request_ids (policy self)"
  let ?w1 = "snd (invoke_agent d task (payload_or_empty payload @ kwargs) (run_enter self rid w))"
  let ?fin = "run_finish d self clk rid ?bg
                (hash_if_kept d (policy self) (redacted_input d task (payload_or_empty payload)))
                v ?w1"
  have base: "count_list (metrics_log ?w1) TraceStrip = count_list (metrics_log w) TraceStrip"
    by (simp add: invoke_agent_keeps run_enter_metrics)
  have run_eq: "run d self clk w rid task payload kwargs =
      (case ?fin of (Inr r, w2) \<Rightarrow> (Inr r, w2)
       | (Inl e, w2) \<Rightarrow> if is_Exception e then run_except d clk rid e w2 else (Inl e, w2))"
    by (rule run_agent_ok [OF assms])
  have "count_list (metrics_log (snd (run d self clk w rid task payload kwargs))) TraceStrip =
      count_list (metrics_log (snd ?fin)) TraceStrip"
    unfolding run_eq
    by (cases ?fin; cases "fst ?fin") (auto simp: run_except_keeps)
  then have count: "count_list (metrics_log (snd (run d self clk w rid task payload kwargs))) TraceStrip =
      count_list (metrics_log w) TraceStrip + (if black_box (policy self) \<and> \<not> ?bg then 1 else 0)"
    by (simp add: run_finish_keeps base)
  have res: "(black_box (policy self) \<and> \<not> ?bg \<longrightarrow> traces r = PNone) \<and>
             (\<not> (black_box (policy self) \<and> \<not> ?bg) \<and> status r = ''success''
                \<longrightarrow> traces r = fst (snd (parse_agent_result v)))"
    if r: "fst (run d self clk w rid task payload kwargs) = Inr r" for r
    using run_agent_ok_result [OF assms r]
    by (auto simp: error_result_fields dest: run_finish_result(4))
  from count res show ?thesis by blast
qed

theorem C1_trace_suppression_witness:
  "fst (invoke_agent (collab scenario_agent memory_store) ''get weather''
          (payload_or_empty None @ []) (fresh []))
     = Inr (PDict [(''result'', PStr ''ok''), (''traces'', PList [PStr ''a'', PStr ''b'']),
                   (''cost_cents'', PFloat (3 / 2))])
   \<and> count_list (metrics_log (snd (run (collab scenario_agent memory_store)
          (mk_wrapper (mk_policy True True True {}) True) test_clock (fresh [])
          ''req-1'' ''get weather'' None []))) TraceStrip = 1
   \<and> map_sum id traces (fst (run (collab scenario_agent memory_store)
          (mk_wrapper (mk_policy True True True {}) True) test_clock (fresh [])
          ''req-1'' ''get weather'' None [])) = Inr PNone
   \<and> count_list (metrics_log (snd (run (collab scenario_agent memory_store)
          (mk_wrapper (mk_policy False True True {}) True) test_clock (fresh [])
          ''req-1'' ''get weather'' None []))) TraceStrip = 0
   \<and> map_sum id traces (fst (run (collab scenario_agent memory_store)
          (mk_wrapper (mk_policy False True True {}) True) test_clock (fresh [])
          ''req-1'' ''get weather'' None [])) = Inr (PList [PStr ''a'', PStr ''b''])"
proof -
  have agent: "fst (invoke_agent (collab scenario_agent memory_store) ''get weather''
          (payload_or_empty None @ []) (fresh []))
     = Inr (PDict [(''result'', PStr ''ok''), (''traces'', PList [PStr ''a'', PStr ''b'']),
                   (''cost_cents'', PFloat (3 / 2))])"
    by (simp add: run_defs fixture_defs)
  show ?thesis
    using agent
      C1_trace_suppression [OF agent, of "mk_wrapper (mk_policy True True True {}) True"
        test_clock "''req-1''"]
      C1_trace_suppression [OF agent, of "mk_wrapper (mk_policy False True True {}) True"
        test_clock "''req-1''"]
    by (simp add: run_defs fixture_defs)
qed

section \<open>Break-glass exemption\<close>

text \<open>
  Claim C2, as stated, fails for the traces: the request id is a break-glass id, the
  agent returns the traces \<^verbatim>\<open>["a", "b"]\<close>, the success-path \<^verbatim>\<open>store_outcome\<close>
  raises, the handler's one returns, and the returned result has \<^verbatim>\<open>traces = None\<close>.
\<close>

theorem C2_storage_failure_counterexample:
  "''req-1'' \<in> break_glass_request_ids (policy (mk_wrapper (mk_policy True True True {''req-1''}) True))
   \<and> fst (invoke_agent (collab scenario_agent flaky_store) ''get weather''
          (payload_or_empty None @ []) (fresh 0))
     = Inr (PDict [(''result'', PStr ''ok''), (''traces'', PList [PStr ''a'', PStr ''b'']),
                   (''cost_cents'', PFloat (3 / 2))])
   \<and> fst (run (collab scenario_agent flaky_store)
          (mk_wrapper (mk_policy True True True {''req-1''}) True) test_clock (fresh 0)
          ''req-1'' ''get weather'' None [])
     = Inr \<lparr>request_id = ''req-1'', status = ''error'',
            result = PDict [(''error'', PStr ''write failed'')], traces = PNone,
            latency_ms = 125, cost_cents = PInt 0, input_hash = None, output_hash = None,
            attestation = Some [(''error'', PStr ''write failed'')]\<rparr>"
  by (simp add: run_defs fixture_defs)

text \<open>
  Claim C2, amended. For a request id in \<^verbatim>\<open>policy.break_glass_request_ids\<close>:
  \<^verbatim>\<open>record_break_glass\<close> is notified (exactly once); every result with status
  \<^verbatim>\<open>success\<close> carries the traces of the parsed agent response unchanged, whatever
  \<^verbatim>\<open>policy.black_box\<close> says; its attestation is present exactly when one of the two
  attestation flags is set, and then has the entry \<^verbatim>\<open>break_glass\<close> with
  \<^verbatim>\<open>enabled = True\<close>.
\<close>

theorem C2_break_glass_exemption:
  assumes "rid \<in> break_glass_request_ids (policy self)"
  shows "count_list (metrics_log (snd (run d self clk w rid task payload kwargs))) BreakGlass =
           count_list (metrics_log w) BreakGlass + 1
       \<and> (\<forall>r. fst (run d self clk w rid task payload kwargs) = Inr r \<and> status r = ''success'' \<longrightarrow>
             (\<exists>v. fst (invoke_agent d task (payload_or_empty payload @ kwargs) w) = Inr v \<and>
                  traces r = fst (snd (parse_agent_result v))) \<and>
             (attestation r = None \<longleftrightarrow>
                \<not> (include_code_sha (policy self) \<or> include_policy_hash (policy self))) \<and>
             (\<forall>a. attestation r = Some a \<longrightarrow>
                  map_of a ''break_glass'' =
                    Some (PDict [(''enabled'', PBool True),
                                 (''reason'', PStr ''Request ID in break_glass_request_ids''),
                                 (''timestamp'', PStr (now_break_glass clk))])))"
proof -
  have count: "count_list (metrics_log (snd (run d self clk w rid task payload kwargs))) BreakGlass =
           count_list (metrics_log w) BreakGlass + 1"
    using assms by (simp add: run_break_glass_count)
  have res: "(\<exists>v. fst (invoke_agent d task (payload_or_empty payload @ kwargs) w) = Inr v \<and>
                  traces r = fst (snd (parse_agent_result v))) \<and>
             (attestation r = None \<longleftrightarrow>
                \<not> (include_code_sha (policy self) \<or> include_policy_hash (policy self))) \<and>
             (\<forall>a. attestation r = Some a \<longrightarrow>
                  map_of a ''break_glass'' =
                    Some (PDict [(''enabled'', PBool True),
                                 (''reason'', PStr ''Request ID in break_glass_request_ids''),
                                 (''timestamp'', PStr (now_break_glass clk))]))"
    if r: "fst (run d self clk w rid task payload kwargs) = Inr r" and s: "status r = ''success''"
    for r
  proof -
    from run_success [OF r s] obtain v where
      v: "fst (invoke_agent d task (payload_or_empty payload @ kwargs) w) = Inr v" and
      fin: "run d self clk w rid task payload kwargs =
              run_finish d self clk rid (rid \<in> break_glass_request_ids (policy self))
                (hash_if_kept d (policy self) (redacted_input d task (payload_or_empty payload))) v
                (snd (invoke_agent d task (payload_or_empty payload @ kwargs) (run_enter self rid w)))"
      by blast
    from r fin have fr: "fst (run_finish d self clk rid True
                (hash_if_kept d (policy self) (redacted_input d task (payload_or_empty payload))) v
                (snd (invoke_agent d task (payload_or_empty payload @ kwargs) (run_enter self rid w))))
              = Inr r"
      using assms by simp
    have "traces r = fst (snd (parse_agent_result v))"
      using run_finish_result(4) [OF fr] by simp
    moreover have "attestation r = None \<longleftrightarrow>
                \<not> (include_code_sha (policy self) \<or> include_policy_hash (policy self))"
      using run_finish_result(9) [OF fr] by (simp add: make_attestation_None)
    moreover have "map_of a ''break_glass'' =
                    Some (PDict [(''enabled'', PBool True),
                                 (''reason'', PStr ''Request ID in break_glass_request_ids''),
                                 (''timestamp'', PStr (now_break_glass clk))])"
      if "attestation r = Some a" for a
      using run_finish_result(9) [OF fr] that make_attestation_break_glass by metis
    ultimately show ?thesis using v by blast
  qed
  from count res show ?thesis by blast
qed

theorem C2_break_glass_exemption_witness:
  "''req-1'' \<in> break_glass_request_ids (policy (mk_wrapper (mk_policy True False True {''req-1''}) True))
   \<and> metrics_log (snd (run (collab scenario_agent memory_store)
          (mk_wrapper (mk_policy True False True {''req-1''}) True) test_clock (fresh [])
          ''req-1'' ''get weather'' None []))
       = [BreakGlass, Request ''success'' 250 (PFloat (3 / 2))]
   \<and> fst (run (collab scenario_agent memory_store)
          (mk_wrapper (mk_policy True False True {''req-1''}) True) test_clock (fresh [])
          ''req-1'' ''get weather'' None [])
     = Inr \<lparr>request_id = ''req-1'', status = ''success'', result = PStr ''ok'',
            traces = PList [PStr ''a'', PStr ''b''], latency_ms = 250,
            cost_cents = PFloat (3 / 2), input_hash = None, output_hash = None,
            attestation = Some
              [(''request_id'', PStr ''req-1''), (''input_hash'', PNone),
               (''output_hash'', PNone), (''code_sha'', PStr ''fake_sha_for_demo''),
               (''break_glass'',
                PDict [(''enabled'', PBool True),
                       (''reason'', PStr ''Request ID in break_glass_request_ids''),
                       (''timestamp'', PStr ''2024-10-06T14:30:23+00:00'')])]\<rparr>"
  using C2_break_glass_exemption [of "''req-1''" "mk_wrapper (mk_policy True False True {''req-1''}) True"
          "collab scenario_agent memory_store" test_clock "fresh []" "''get weather''" None "[]"]
  by (simp add: run_defs fixture_defs)

section \<open>Error containment\<close>

text \<open>
  Claim C3, as stated, fails: "no exception ever escapes \<^verbatim>\<open>run\<close>". First, the agent
  raises, the handler calls \<^verbatim>\<open>store_outcome\<close>, the storage is down, and that
  exception leaves \<^verbatim>\<open>run\<close>. Second, the agent is cancelled; \<^verbatim>\<open>except Exception\<close>
  does not catch \<^verbatim>\<open>CancelledError\<close>, which leaves \<^verbatim>\<open>run\<close> with nothing stored.
\<close>

theorem C3_handler_store_raises_counterexample:
  "fst (invoke_agent (collab failing_agent down_store) ''get weather''
          (payload_or_empty None @ []) (fresh []))
     = Inl (Exc OtherException ''boom'')
   \<and> fst (run (collab failing_agent down_store)
          (mk_wrapper (mk_policy True True True {}) True) test_clock (fresh [])
          ''req-1'' ''get weather'' None [])
     = Inl (Exc OtherException ''storage down'')
   \<and> run (collab cancelled_agent memory_store)
          (mk_wrapper (mk_policy True True True {}) True) test_clock (fresh [])
          ''req-1'' ''get weather'' None []
     = (Inl (Exc NonException ''cancelled''),
        \<lparr>agent_state = (), agent_calls = [(''get weather'', [])], storage_state = [],
         store_calls = [], metrics_log = []\<rparr>)"
  by (simp add: run_defs fixture_defs)

text \<open>
  Claim C3, amended. If a step of the \<^verbatim>\<open>try\<close> block (the agent's invocation, or the
  success-path \<^verbatim>\<open>store_outcome\<close>) raises an exception \<open>e\<close> of class
  \<^verbatim>\<open>Exception\<close>, and the handler's own \<^verbatim>\<open>store_outcome\<close> call returns normally, then
  \<^verbatim>\<open>run\<close> returns the result with status \<^verbatim>\<open>error\<close>,
  \<^verbatim>\<open>result = {"error": str(e)}\<close>, no traces, no hashes and the attestation-shaped
  payload \<^verbatim>\<open>{"error": str(e)}\<close>, with the latency measured in the handler; the record
  with status \<^verbatim>\<open>error\<close> has been stored and the failure event with zero cost recorded.
\<close>

theorem C3_error_containment:
  assumes "fst (run_try d self clk rid task (payload_or_empty payload) kwargs
                  (rid \<in> break_glass_request_ids (policy self)) (run_enter self rid w)) = Inl e"
      and "is_Exception e"
      and "fst (storage_store_outcome d
                 (storage_state (snd (run_try d self clk rid task (payload_or_empty payload) kwargs
                     (rid \<in> break_glass_request_ids (policy self)) (run_enter self rid w))))
                 (PDict [(''request_id'', PStr rid), (''status'', PStr ''error''),
                         (''error'', PStr (exc_str e)),
                         (''latency_ms'', PInt (elapsed_ms (time_start clk) (time_error clk))),
                         (''created_at'', PStr (now_error clk))])) = None"
  shows "fst (run d self clk w rid task payload kwargs) =
           Inr \<lparr>request_id = rid, status = ''error'',
                result = PDict [(''error'', PStr (exc_str e))], traces = PNone,
                latency_ms = elapsed_ms (time_start clk) (time_error clk),
                cost_cents = PInt 0, input_hash = None, output_hash = None,
                attestation = Some [(''error'', PStr (exc_str e))]\<rparr>
       \<and> store_calls (snd (run d self clk w rid task payload kwargs)) =
           store_calls (snd (run_try d self clk rid task (payload_or_empty payload) kwargs
                     (rid \<in> break_glass_request_ids (policy self)) (run_enter self rid w))) @
           [(PDict [(''request_id'', PStr rid), (''status'', PStr ''error''),
                    (''error'', PStr (exc_str e)),
                    (''latency_ms'', PInt (elapsed_ms (time_start clk) (time_error clk))),
                    (''created_at'', PStr (now_error clk))], True)]
       \<and> metrics_log (snd (run d self clk w rid task payload kwargs)) =
           metrics_log (snd (run_try d self clk rid task (payload_or_empty payload) kwargs
                     (rid \<in> break_glass_request_ids (policy self)) (run_enter self rid w))) @
           [Request ''error'' (elapsed_ms (time_start clk) (time_error clk)) (PInt 0)]"
proof -
  let ?w1 = "snd (run_try d self clk rid task (payload_or_empty payload) kwargs
                     (rid \<in> break_glass_request_ids (policy self)) (run_enter self rid w))"
  have stored: "fst (storage_store_outcome d (storage_state ?w1)
                  (error_record rid (exc_str e) (elapsed_ms (time_start clk) (time_error clk))
                     (now_error clk))) = None"
    using assms(3) by (simp add: error_record_def)
  have "run d self clk w rid task payload kwargs = run_except d clk rid e ?w1"
    using assms(2) by (simp add: run_try_raises [OF assms(1)])
  then show ?thesis
    using run_except_stored [OF stored]
    by (simp add: error_record_def error_result_def)
qed

theorem C3_error_containment_witness:
  "fst (run_try (collab failing_agent memory_store)
          (mk_wrapper (mk_policy True True True {}) True) test_clock ''req-1'' ''get weather''
          (payload_or_empty None) []
          (''req-1'' \<in> break_glass_request_ids (policy (mk_wrapper (mk_policy True True True {}) True)))
          (run_enter (mk_wrapper (mk_policy True True True {}) True) ''req-1'' (fresh [])))
     = Inl (Exc OtherException ''boom'')
   \<and> is_Exception (Exc OtherException ''boom'')
   \<and> fst (run (collab failing_agent memory_store)
          (mk_wrapper (mk_policy True True True {}) True) test_clock (fresh [])
          ''req-1'' ''get weather'' None [])
     = Inr \<lparr>request_id = ''req-1'', status = ''error'',
            result = PDict [(''error'', PStr ''boom'')], traces = PNone,
            latency_ms = 125, cost_cents = PInt 0, input_hash = None, output_hash = None,
            attestation = Some [(''error'', PStr ''boom'')]\<rparr>
   \<and> store_calls (snd (run (collab failing_agent memory_store)
          (mk_wrapper (mk_policy True True True {}) True) test_clock (fresh [])
          ''req-1'' ''get weather'' None []))
     = [(PDict [(''request_id'', PStr ''req-1''), (''status'', PStr ''error''),
                (''error'', PStr ''boom''), (''latency_ms'', PInt 125),
                (''created_at'', PStr ''2024-10-06T14:30:21+00:00'')], True)]
   \<and> metrics_log (snd (run (collab failing_agent memory_store)
          (mk_wrapper (mk_policy True True True {}) True) test_clock (fresh [])
          ''req-1'' ''get weather'' None []))
     = [Request ''error'' 125 (PInt 0)]"
proof -
  have raised: "fst (run_try (collab failing_agent memory_store)
          (mk_wrapper (mk_policy True True True {}) True) test_clock ''req-1'' ''get weather''
          (payload_or_empty None) []
          (''req-1'' \<in> break_glass_request_ids (policy (mk_wrapper (mk_policy True True True {}) True)))
          (run_enter (mk_wrapper (mk_policy True True True {}) True) ''req-1'' (fresh [])))
     = Inl (Exc OtherException ''boom'')"
    by (simp add: run_defs fixture_defs)
  have exc: "is_Exception (Exc OtherException ''boom'')" by simp
  have stored: "fst (storage_store_outcome (collab failing_agent memory_store)
                 (storage_state (snd (run_try (collab failing_agent memory_store)
          (mk_wrapper (mk_policy True True True {}) True) test_clock ''req-1'' ''get weather''
          (payload_or_empty None) []
          (''req-1'' \<in> break_glass_request_ids (policy (mk_wrapper (mk_policy True True True {}) True)))
          (run_enter (mk_wrapper (mk_policy True True True {}) True) ''req-1'' (fresh [])))))
                 (PDict [(''request_id'', PStr ''req-1''), (''status'', PStr ''error''),
                         (''error'', PStr (exc_str (Exc OtherException ''boom''))),
                         (''latency_ms'', PInt (elapsed_ms (time_start test_clock) (time_error test_clock))),
                         (''created_at'', PStr (now_error test_clock))])) = None"
    by (simp add: fixture_defs)
  show ?thesis
    using raised exc C3_error_containment [OF raised exc stored]
    by (simp add: run_defs fixture_defs)
qed

section \<open>Hash gating\<close>

lemma compute_hash_valid:
  "length (compute_hash d data) = 64 \<and> set (compute_hash d data) \<subseteq> set ''0123456789abcdef''"
  unfolding compute_hash_def by (rule hexdigest_valid)

lemma run_success_result:
  assumes "fst (run d self clk w rid task payload kwargs) = Inr r" and "status r = ''success''"
  shows "\<exists>v. fst (invoke_agent d task (payload_or_empty payload @ kwargs) w) = Inr v \<and>
           result r = (if use_enhanced_pii self then pii_redact d (fst (parse_agent_result v))
                       else fst (parse_agent_result v)) \<and>
           cost_cents r = snd (snd (parse_agent_result v)) \<and>
           input_hash r =
             hash_if_kept d (policy self) (redacted_input d task (payload_or_empty payload)) \<and>
           output_hash r = hash_if_kept d (policy self) (fst (parse_agent_result v)) \<and>
           latency_ms r = elapsed_ms (time_start clk) (time_success clk)"
proof -
  from run_success [OF assms] obtain v where
    v: "fst (invoke_agent d task (payload_or_empty payload @ kwargs) w) = Inr v" and
    fin: "run d self clk w rid task payload kwargs =
            run_finish d self clk rid (rid \<in> break_glass_request_ids (policy self))
              (hash_if_kept d (policy self) (redacted_input d task (payload_or_empty payload))) v
              (snd (invoke_agent d task (payload_or_empty payload @ kwargs) (run_enter self rid w)))"
    by blast
  from assms(1) fin have fr: "fst (run_finish d self clk rid (rid \<in> break_glass_request_ids (policy self))
              (hash_if_kept d (policy self) (redacted_input d task (payload_or_empty payload))) v
              (snd (invoke_agent d task (payload_or_empty payload @ kwargs) (run_enter self rid w))))
            = Inr r"
    by simp
  show ?thesis
    using v run_finish_result(3,5,6,7,8) [OF fr] by blast
qed

lemma run_error_result:
  assumes "fst (run d self clk w rid task payload kwargs) = Inr r" and "status r \<noteq> ''success''"
  shows "\<exists>e. r = error_result rid (exc_str e) (elapsed_ms (time_start clk) (time_error clk))"
proof (cases "fst (invoke_agent d task (payload_or_empty payload @ kwargs) w)")
  case (Inl e)
  from assms(1) show ?thesis
    unfolding run_agent_raises [OF Inl]
    by (auto split: if_splits dest: run_except_result)
next
  case (Inr v)
  from run_agent_ok_result [OF Inr assms(1)] assms(2) show ?thesis
    by (auto dest: run_finish_result(1))
qed

text \<open>
  Claim C4, as stated, fails: \<^verbatim>\<open>policy.keep_hashes\<close> is true, the agent raises, and
  the returned result has neither hash.
\<close>

theorem C4_error_path_counterexample:
  "keep_hashes (policy (mk_wrapper (mk_policy True True False {}) True))
   \<and> fst (run (collab failing_agent memory_store)
          (mk_wrapper (mk_policy True True False {}) True) test_clock (fresh [])
          ''req-1'' ''get weather'' None [])
     = Inr \<lparr>request_id = ''req-1'', status = ''error'',
            result = PDict [(''error'', PStr ''boom'')], traces = PNone,
            latency_ms = 125, cost_cents = PInt 0, input_hash = None, output_hash = None,
            attestation = Some [(''error'', PStr ''boom'')]\<rparr>"
  by (simp add: run_defs fixture_defs)

text \<open>
  Claim C4, amended. In a result with status \<^verbatim>\<open>success\<close>, \<^verbatim>\<open>input_hash\<close> and
  \<^verbatim>\<open>output_hash\<close> are present if and only if \<^verbatim>\<open>policy.keep_hashes\<close> is true; in a
  result with status \<^verbatim>\<open>error\<close> both are absent. When present, \<^verbatim>\<open>input_hash\<close> is
  \<^verbatim>\<open>_compute_hash\<close> of the redacted input and \<^verbatim>\<open>output_hash\<close> is
  \<^verbatim>\<open>_compute_hash\<close> of the parsed result, so equal inputs give equal hashes, and each is
  the hexadecimal form of a SHA-256 digest: 64 characters among \<^verbatim>\<open>0-9a-f\<close>.
\<close>

theorem C4_hash_gating:
  assumes "fst (run d self clk w rid task payload kwargs) = Inr r"
  shows "(status r = ''success'' \<longrightarrow>
            (input_hash r \<noteq> None \<longleftrightarrow> keep_hashes (policy self)) \<and>
            (output_hash r \<noteq> None \<longleftrightarrow> keep_hashes (policy self)) \<and>
            (keep_hashes (policy self) \<longrightarrow>
               input_hash r =
                 Some (compute_hash d (redacted_input d task (payload_or_empty payload))) \<and>
               (\<exists>v. fst (invoke_agent d task (payload_or_empty payload @ kwargs) w) = Inr v \<and>
                    output_hash r = Some (compute_hash d (fst (parse_agent_result v))))))
       \<and> (status r \<noteq> ''success'' \<longrightarrow> input_hash r = None \<and> output_hash r = None)
       \<and> (\<forall>h. input_hash r = Some h \<or> output_hash r = Some h \<longrightarrow>
              length h = 64 \<and> set h \<subseteq> set ''0123456789abcdef'')"
proof -
  have ok: "(input_hash r \<noteq> None \<longleftrightarrow> keep_hashes (policy self)) \<and>
            (output_hash r \<noteq> None \<longleftrightarrow> keep_hashes (policy self)) \<and>
            (keep_hashes (policy self) \<longrightarrow>
               input_hash r =
                 Some (compute_hash d (redacted_input d task (payload_or_empty payload))) \<and>
               (\<exists>v. fst (invoke_agent d task (payload_or_empty payload @ kwargs) w) = Inr v \<and>
                    output_hash r = Some (compute_hash d (fst (parse_agent_result v)))))"
    if s: "status r = ''success''"
  proof -
    from run_success_result [OF assms s] obtain v where
      v: "fst (invoke_agent d task (payload_or_empty payload @ kwargs) w) = Inr v" and
      ih: "input_hash r =
             hash_if_kept d (policy self) (redacted_input d task (payload_or_empty payload))" and
      oh: "output_hash r = hash_if_kept d (policy self) (fst (parse_agent_result v))"
      by blast
    show ?thesis
      using v ih oh by (auto simp: hash_if_kept_def)
  qed
  have err: "input_hash r = None \<and> output_hash r = None" if s: "status r \<noteq> ''success''"
    using run_error_result [OF assms s] by (auto simp: error_result_fields)
  have valid: "length h = 64 \<and> set h \<subseteq> set ''0123456789abcdef''"
    if h: "input_hash r = Some h \<or> output_hash r = Some h" for h
  proof (cases "status r = ''success''")
    case True
    from ok [OF True] h have "\<exists>x. h = compute_hash d x" by (cases "keep_hashes (policy self)") auto
    then show ?thesis using compute_hash_valid by blast
  next
    case False
    from err [OF False] h show ?thesis by simp
  qed
  from ok err valid show ?thesis by blast
qed

theorem C4_hash_gating_witness:
  "fst (run (collab scenario_agent memory_store)
          (mk_wrapper (mk_policy True True False {}) True) test_clock (fresh [])
          ''req-1'' ''get weather'' None [])
     = Inr \<lparr>request_id = ''req-1'', status = ''success'', result = PStr ''ok'',
            traces = PNone, latency_ms = 250, cost_cents = PFloat (3 / 2),
            input_hash = Some (compute_hash (collab scenario_agent memory_store)
                          (PDict [(''task'', PStr ''get weather''), (''payload'', PDict [])])),
            output_hash = Some (compute_hash (collab scenario_agent memory_store) (PStr ''ok'')),
            attestation = None\<rparr>
   \<and> length (compute_hash (collab scenario_agent memory_store) (PStr ''ok'')) = 64
   \<and> set (compute_hash (collab scenario_agent memory_store) (PStr ''ok''))
        \<subseteq> set ''0123456789abcdef''
   \<and> map_sum id input_hash (fst (run (collab scenario_agent memory_store)
          (mk_wrapper (mk_policy True False False {}) True) test_clock (fresh [])
          ''req-1'' ''get weather'' None [])) = Inr None"
proof -
  have r1: "fst (run (collab scenario_agent memory_store)
          (mk_wrapper (mk_policy True True False {}) True) test_clock (fresh [])
          ''req-1'' ''get weather'' None [])
     = Inr \<lparr>request_id = ''req-1'', status = ''success'', result = PStr ''ok'',
            traces = PNone, latency_ms = 250, cost_cents = PFloat (3 / 2),
            input_hash = Some (compute_hash (collab scenario_agent memory_store)
                          (PDict [(''task'', PStr ''get weather''), (''payload'', PDict [])])),
            output_hash = Some (compute_hash (collab scenario_agent memory_store) (PStr ''ok'')),
            attestation = None\<rparr>"
    by (simp add: run_defs fixture_defs)
  have r2: "fst (run (collab scenario_agent memory_store)
          (mk_wrapper (mk_policy True False False {}) True) test_clock (fresh [])
          ''req-1'' ''get weather'' None [])
     = Inr \<lparr>request_id = ''req-1'', status = ''success'', result = PStr ''ok'',
            traces = PNone, latency_ms = 250, cost_cents = PFloat (3 / 2),
            input_hash = None, output_hash = None, attestation = None\<rparr>"
    by (simp add: run_defs fixture_defs)
  show ?thesis
    using r1 r2 C4_hash_gating [OF r1] C4_hash_gating [OF r2]
    by simp
qed

section \<open>The persisted outcome record\<close>

lemma run_finish_returns:
  assumes "fst (run_finish d self clk rid bg ih v w1) = Inr r"
  shows "fst (storage_store_outcome d (storage_state w1)
           (success_record rid ih (hash_if_kept d (policy self) (fst (parse_agent_result v)))
              (elapsed_ms (time_start clk) (time_success clk)) (snd (snd (parse_agent_result v)))
              (now_success clk))) = None"
  using assms
  by (auto simp: run_finish_def store_outcome_def record_metric_def Let_def
           split: prod.splits option.splits if_splits)

text \<open>
  Claim C6, as stated, fails: the one record written by a successful request has seven
  fields and \<^verbatim>\<open>attestation\<close> is not among them, although an attestation was generated
  and is returned in the result.
\<close>

theorem C6_record_without_attestation_counterexample:
  "store_calls (snd (run (collab echo_agent memory_store)
          (mk_wrapper (mk_policy False False True {}) False) test_clock (fresh [])
          ''req-2'' ''handle api request'' (Some [(''phone'', PStr ''555-123-4567'')]) []))
     = [(PDict [(''request_id'', PStr ''req-2''), (''status'', PStr ''success''),
                (''input_hash'', PNone), (''output_hash'', PNone),
                (''latency_ms'', PInt 250), (''cost_cents'', PFloat 0),
                (''created_at'', PStr ''2024-10-06T14:30:22+00:00'')], True)]
   \<and> map_sum id attestation (fst (run (collab echo_agent memory_store)
          (mk_wrapper (mk_policy False False True {}) False) test_clock (fresh [])
          ''req-2'' ''handle api request'' (Some [(''phone'', PStr ''555-123-4567'')]) []))
     = Inr (Some [(''request_id'', PStr ''req-2''), (''input_hash'', PNone),
                  (''output_hash'', PNone), (''code_sha'', PStr ''fake_sha_for_demo'')])"
  by (simp add: run_defs fixture_defs Let_def)

text \<open>
  Claim C6, amended. A request that ends with status \<^verbatim>\<open>success\<close> has made exactly one
  call of \<^verbatim>\<open>store_outcome\<close>, which returned normally, with a record of the fields
  \<^verbatim>\<open>request_id\<close>, \<^verbatim>\<open>status\<close>, \<^verbatim>\<open>input_hash\<close>, \<^verbatim>\<open>output_hash\<close>,
  \<^verbatim>\<open>latency_ms\<close>, \<^verbatim>\<open>cost_cents\<close> and \<^verbatim>\<open>created_at\<close>, whose values are those of
  the returned result; the record has no \<^verbatim>\<open>attestation\<close> field.
\<close>

theorem C6_outcome_record:
  assumes "fst (run d self clk w rid task payload kwargs) = Inr r" and "status r = ''success''"
  shows "store_calls (snd (run d self clk w rid task payload kwargs)) =
           store_calls w @
             [(PDict [(''request_id'', PStr rid),
                      (''status'', PStr ''success''),
                      (''input_hash'', opt_str (input_hash r)),
                      (''output_hash'', opt_str (output_hash r)),
                      (''latency_ms'', PInt (latency_ms r)),
                      (''cost_cents'', cost_cents r),
                      (''created_at'', PStr (now_success clk))], True)]"
proof -
  let ?w1 = "snd (invoke_agent d task (payload_or_empty payload @ kwargs) (run_enter self rid w))"
  from run_success [OF assms] obtain v where
    fin: "run d self clk w rid task payload kwargs =
            run_finish d self clk rid (rid \<in> break_glass_request_ids (policy self))
              (hash_if_kept d (policy self) (redacted_input d task (payload_or_empty payload))) v ?w1"
    by blast
  from assms(1) fin have fr: "fst (run_finish d self clk rid (rid \<in> break_glass_request_ids (policy self))
              (hash_if_kept d (policy self) (redacted_input d task (payload_or_empty payload))) v ?w1)
            = Inr r"
    by simp
  have calls: "store_calls ?w1 = store_calls w"
    by (simp add: invoke_agent_keeps run_enter_keeps)
  show ?thesis
    unfolding fin run_finish_store(1)
    using run_finish_returns [OF fr] run_finish_result(5,6,7,8) [OF fr] calls
    by (simp add: success_record_def)
qed

theorem C6_outcome_record_witness:
  "fst (run (collab scenario_agent memory_store)
          (mk_wrapper (mk_policy True False True {}) True) test_clock (fresh [])
          ''req-1'' ''get weather'' None [])
     = Inr \<lparr>request_id = ''req-1'', status = ''success'', result = PStr ''ok'',
            traces = PNone, latency_ms = 250, cost_cents = PFloat (3 / 2),
            input_hash = None, output_hash = None,
            attestation = Some
              [(''request_id'', PStr ''req-1''), (''input_hash'', PNone),
               (''output_hash'', PNone), (''code_sha'', PStr ''fake_sha_for_demo'')]\<rparr>
   \<and> store_calls (snd (run (collab scenario_agent memory_store)
          (mk_wrapper (mk_policy True False True {}) True) test_clock (fresh [])
          ''req-1'' ''get weather'' None []))
     = [(PDict [(''request_id'', PStr ''req-1''), (''status'', PStr ''success''),
                (''input_hash'', PNone), (''output_hash'', PNone),
                (''latency_ms'', PInt 250), (''cost_cents'', PFloat (3 / 2)),
                (''created_at'', PStr ''2024-10-06T14:30:22+00:00'')], True)]"
proof -
  have r: "fst (run (collab scenario_agent memory_store)
          (mk_wrapper (mk_policy True False True {}) True) test_clock (fresh [])
          ''req-1'' ''get weather'' None [])
     = Inr \<lparr>request_id = ''req-1'', status = ''success'', result = PStr ''ok'',
            traces = PNone, latency_ms = 250, cost_cents = PFloat (3 / 2),
            input_hash = None, output_hash = None,
            attestation = Some
              [(''request_id'', PStr ''req-1''), (''input_hash'', PNone),
               (''output_hash'', PNone), (''code_sha'', PStr ''fake_sha_for_demo'')]\<rparr>"
    by (simp add: run_defs fixture_defs)
  show ?thesis
    using r C6_outcome_record [OF r]
    by (simp add: fixture_defs opt_str_def)
qed

section \<open>Invocation of the wrapped agent\<close>





section \<open>Hashing before redaction\<close>

text \<open>
  Claim C8. In a request that ends with status \<^verbatim>\<open>success\<close> under
  \<^verbatim>\<open>policy.keep_hashes\<close>, \<^verbatim>\<open>output_hash\<close> is the hash of the result as parsed from
  the agent's response, before redaction, while the returned \<^verbatim>\<open>result\<close> is the redacted
  one when the enhanced redactor is in use (and the parsed one otherwise).
\<close>

theorem C8_hash_before_redaction:
  assumes "fst (run d self clk w rid task payload kwargs) = Inr r"
      and "status r = ''success''"
      and "keep_hashes (policy self)"
  shows "\<exists>v. fst (invoke_agent d task (payload_or_empty payload @ kwargs) w) = Inr v \<and>
           output_hash r = Some (compute_hash d (fst (parse_agent_result v))) \<and>
           result r = (if use_enhanced_pii self then pii_redact d (fst (parse_agent_result v))
                       else fst (parse_agent_result v))"
  using run_success_result [OF assms(1,2)] assms(3)
  by (auto simp: hash_if_kept_def)

theorem C8_hash_before_redaction_witness:
  "fst (run (collab echo_agent memory_store)
          (mk_wrapper (mk_policy True True False {}) True) test_clock (fresh [])
          ''req-1'' ''create user'' (Some [(''email'', PStr ''a@b.com'')]) [])
     = Inr \<lparr>request_id = ''req-1'', status = ''success'',
            result = PDict [(''email'', PStr ''[EMAIL_REDACTED]'')],
            traces = PNone, latency_ms = 250, cost_cents = PFloat 0,
            input_hash = Some (compute_hash (collab echo_agent memory_store)
              (PDict [(''task'', PStr ''create user''),
                      (''payload'', PDict [(''email'', PStr ''[EMAIL_REDACTED]'')])])),
            output_hash = Some (compute_hash (collab echo_agent memory_store)
              (PDict [(''email'', PStr ''a@b.com'')])),
            attestation = None\<rparr>
   \<and> keep_hashes (policy (mk_wrapper (mk_policy True True False {}) True))
   \<and> fst (invoke_agent (collab echo_agent memory_store) ''create user''
          (payload_or_empty (Some [(''email'', PStr ''a@b.com'')]) @ []) (fresh []))
     = Inr (PDict [(''status'', PStr ''success''),
                   (''result'', PDict [(''email'', PStr ''a@b.com'')]),
                   (''traces'', PList [PStr ''create user''])])"
proof -
  have r: "fst (run (collab echo_agent memory_store)
          (mk_wrapper (mk_policy True True False {}) True) test_clock (fresh [])
          ''req-1'' ''create user'' (Some [(''email'', PStr ''a@b.com'')]) [])
     = Inr \<lparr>request_id = ''req-1'', status = ''success'',
            result = PDict [(''email'', PStr ''[EMAIL_REDACTED]'')],
            traces = PNone, latency_ms = 250, cost_cents = PFloat 0,
            input_hash = Some (compute_hash (collab echo_agent memory_store)
              (PDict [(''task'', PStr ''create user''),
                      (''payload'', PDict [(''email'', PStr ''[EMAIL_REDACTED]'')])])),
            output_hash = Some (compute_hash (collab echo_agent memory_store)
              (PDict [(''email'', PStr ''a@b.com'')])),
            attestation = None\<rparr>"
    by (simp add: run_defs fixture_defs Let_def)
  have k: "keep_hashes (policy (mk_wrapper (mk_policy True True False {}) True))"
    by (simp add: fixture_defs)
  show ?thesis
    using r k C8_hash_before_redaction [OF r _ k]
    by (simp add: run_defs fixture_defs)
qed

section \<open>A storage write that fails after the agent succeeded\<close>

text \<open>
  Claim C10, as stated, fails. First, the agent returns, the storage is down, the second
  \<^verbatim>\<open>store_outcome\<close> call is attempted and raises as well, and \<^verbatim>\<open>run\<close> returns no
  result: the exception of the second call leaves it. Second, the agent returns and the
  success-path write is cancelled; \<^verbatim>\<open>except Exception\<close> does not catch
  \<^verbatim>\<open>CancelledError\<close>, so no second call is made and the exception leaves \<^verbatim>\<open>run\<close>.
\<close>

theorem C10_storage_down_counterexample:
  "fst (invoke_agent (collab scenario_agent down_store) ''get weather''
          (payload_or_empty None @ []) (fresh []))
     = Inr (PDict [(''result'', PStr ''ok''), (''traces'', PList [PStr ''a'', PStr ''b'']),
                   (''cost_cents'', PFloat (3 / 2))])
   \<and> store_calls (snd (run (collab scenario_agent down_store)
          (mk_wrapper (mk_policy True False False {}) True) test_clock (fresh [])
          ''req-1'' ''get weather'' None []))
     = [(PDict [(''request_id'', PStr ''req-1''), (''status'', PStr ''success''),
                (''input_hash'', PNone), (''output_hash'', PNone),
                (''latency_ms'', PInt 250), (''cost_cents'', PFloat (3 / 2)),
                (''created_at'', PStr ''2024-10-06T14:30:22+00:00'')], False),
        (PDict [(''request_id'', PStr ''req-1''), (''status'', PStr ''error''),
                (''error'', PStr ''storage down''), (''latency_ms'', PInt 125),
                (''created_at'', PStr ''2024-10-06T14:30:21+00:00'')], False)]
   \<and> fst (run (collab scenario_agent down_store)
          (mk_wrapper (mk_policy True False False {}) True) test_clock (fresh [])
          ''req-1'' ''get weather'' None [])
     = Inl (Exc OtherException ''storage down'')
   \<and> store_calls (snd (run (collab scenario_agent cancelled_store)
          (mk_wrapper (mk_policy True False False {}) True) test_clock (fresh [])
          ''req-1'' ''get weather'' None []))
     = [(PDict [(''request_id'', PStr ''req-1''), (''status'', PStr ''success''),
                (''input_hash'', PNone), (''output_hash'', PNone),
                (''latency_ms'', PInt 250), (''cost_cents'', PFloat (3 / 2)),
                (''created_at'', PStr ''2024-10-06T14:30:22+00:00'')], False)]
   \<and> fst (run (collab scenario_agent cancelled_store)
          (mk_wrapper (mk_policy True False False {}) True) test_clock (fresh [])
          ''req-1'' ''get weather'' None [])
     = Inl (Exc NonException ''cancelled'')"
  by (simp add: run_defs fixture_defs)

text \<open>
  Claim C10, amended. If the agent returns and the success-path \<^verbatim>\<open>store_outcome\<close> call
  raises an exception \<open>e\<close> of class \<^verbatim>\<open>Exception\<close>, a second \<^verbatim>\<open>store_outcome\<close> call
  is made for the same request id with status \<^verbatim>\<open>error\<close>; if that call returns normally,
  \<^verbatim>\<open>run\<close> returns the result with status \<^verbatim>\<open>error\<close> and
  \<^verbatim>\<open>result = {"error": str(e)}\<close>, the agent's result being discarded; if it raises too,
  its exception leaves \<^verbatim>\<open>run\<close>.
\<close>

theorem C10_storage_failure_after_agent_success:
  assumes "fst (invoke_agent d task (payload_or_empty payload @ kwargs) w) = Inr v"
      and "storage_store_outcome d (storage_state w)
             (success_record rid
                (hash_if_kept d (policy self) (redacted_input d task (payload_or_empty payload)))
                (hash_if_kept d (policy self) (fst (parse_agent_result v)))
                (elapsed_ms (time_start clk) (time_success clk))
                (snd (snd (parse_agent_result v))) (now_success clk)) = (Some e, st1)"
      and "is_Exception e"
  shows "store_calls (snd (run d self clk w rid task payload kwargs)) =
           store_calls w @
             [(success_record rid
                 (hash_if_kept d (policy self) (redacted_input d task (payload_or_empty payload)))
                 (hash_if_kept d (policy self) (fst (parse_agent_result v)))
                 (elapsed_ms (time_start clk) (time_success clk))
                 (snd (snd (parse_agent_result v))) (now_success clk), False),
              (error_record rid (exc_str e) (elapsed_ms (time_start clk) (time_error clk))
                 (now_error clk),
               fst (storage_store_outcome d st1
                      (error_record rid (exc_str e)
                         (elapsed_ms (time_start clk) (time_error clk)) (now_error clk))) = None)]
       \<and> fst (run d self clk w rid task payload kwargs) =
           (case fst (storage_store_outcome d st1
                      (error_record rid (exc_str e)
                         (elapsed_ms (time_start clk) (time_error clk)) (now_error clk))) of
              None \<Rightarrow> Inr (error_result rid (exc_str e)
                             (elapsed_ms (time_start clk) (time_error clk)))
            | Some e' \<Rightarrow> Inl e')"
proof -
  let ?w1 = "snd (invoke_agent d task (payload_or_empty payload @ kwargs) (run_enter self rid w))"
  let ?ih = "hash_if_kept d (policy self) (redacted_input d task (payload_or_empty payload))"
  let ?fin = "run_finish d self clk rid (rid \<in> break_glass_request_ids (policy self)) ?ih v ?w1"
  have st: "storage_state ?w1 = storage_state w" and sc: "store_calls ?w1 = store_calls w"
    by (simp_all add: invoke_agent_keeps run_enter_keeps)
  have raised: "fst ?fin = Inl e"
    using assms(2) by (simp add: run_finish_store(3) st)
  have "run d self clk w rid task payload kwargs = run_except d clk rid e (snd ?fin)"
    unfolding run_agent_ok [OF assms(1)] using raised assms(3)
    by (cases ?fin) auto
  moreover have "storage_state (snd ?fin) = st1"
    using assms(2) by (simp add: run_finish_store(2) st)
  moreover have "store_calls (snd ?fin) = store_calls w @
             [(success_record rid ?ih
                 (hash_if_kept d (policy self) (fst (parse_agent_result v)))
                 (elapsed_ms (time_start clk) (time_success clk))
                 (snd (snd (parse_agent_result v))) (now_success clk), False)]"
    using assms(2) by (simp add: run_finish_store(1) st sc)
  ultimately show ?thesis
    by (simp add: run_except_eq split: prod.splits option.splits)
qed

theorem C10_storage_failure_after_agent_success_witness:
  "fst (invoke_agent (collab scenario_agent flaky_store) ''get weather''
          (payload_or_empty None @ []) (fresh 0))
     = Inr (PDict [(''result'', PStr ''ok''), (''traces'', PList [PStr ''a'', PStr ''b'']),
                   (''cost_cents'', PFloat (3 / 2))])
   \<and> is_Exception (Exc OtherException ''write failed'')
   \<and> store_calls (snd (run (collab scenario_agent flaky_store)
          (mk_wrapper (mk_policy True False False {}) True) test_clock (fresh 0)
          ''req-1'' ''get weather'' None []))
     = [(PDict [(''request_id'', PStr ''req-1''), (''status'', PStr ''success''),
                (''input_hash'', PNone), (''output_hash'', PNone),
                (''latency_ms'', PInt 250), (''cost_cents'', PFloat (3 / 2)),
                (''created_at'', PStr ''2024-10-06T14:30:22+00:00'')], False),
        (PDict [(''request_id'', PStr ''req-1''), (''status'', PStr ''error''),
                (''error'', PStr ''write failed''), (''latency_ms'', PInt 125),
                (''created_at'', PStr ''2024-10-06T14:30:21+00:00'')], True)]
   \<and> fst (run (collab scenario_agent flaky_store)
          (mk_wrapper (mk_policy True False False {}) True) test_clock (fresh 0)
          ''req-1'' ''get weather'' None [])
     = Inr \<lparr>request_id = ''req-1'', status = ''error'',
            result = PDict [(''error'', PStr ''write failed'')], traces = PNone,
            latency_ms = 125, cost_cents = PInt 0, input_hash = None, output_hash = None,
            attestation = Some [(''error'', PStr ''write failed'')]\<rparr>"
proof -
  let ?d = "collab scenario_agent flaky_store"
  let ?self = "mk_wrapper (mk_policy True False False {}) True"
  let ?v = "PDict [(''result'', PStr ''ok''), (''traces'', PList [PStr ''a'', PStr ''b'']),
                   (''cost_cents'', PFloat (3 / 2))]"
  have agent: "fst (invoke_agent ?d ''get weather'' (payload_or_empty None @ []) (fresh 0)) = Inr ?v"
    by (simp add: run_defs fixture_defs)
  have first: "storage_store_outcome ?d (storage_state (fresh 0))
             (success_record ''req-1''
                (hash_if_kept ?d (policy ?self) (redacted_input ?d ''get weather'' (payload_or_empty None)))
                (hash_if_kept ?d (policy ?self) (fst (parse_agent_result ?v)))
                (elapsed_ms (time_start test_clock) (time_success test_clock))
                (snd (snd (parse_agent_result ?v))) (now_success test_clock))
            = (Some (Exc OtherException ''write failed''), Suc 0)"
    by (simp add: fixture_defs)
  have exc: "is_Exception (Exc OtherException ''write failed'')" by simp
  show ?thesis
    using agent exc C10_storage_failure_after_agent_success [OF agent first exc]
    by (simp add: run_defs fixture_defs)
qed

section \<open>Idempotence of redaction\<close>

lemma match_len_None:
  "match_len r s = None \<longleftrightarrow> (\<forall>n. 1 \<le> n \<and> n \<le> length s \<longrightarrow> \<not> r (take n s))"
  by (auto simp: match_len_def find_None_iff)

lemma clean_sublist: "clean r t \<Longrightarrow> sublist u t \<Longrightarrow> clean r u"
  unfolding clean_def using sublist_order.order_trans by blast

lemma replace_all_clean: "clean r t \<Longrightarrow> replace_all r m t = t"
proof (induction t)
  case Nil
  then show ?case by simp
next
  case (Cons c cs)
  have "\<not> r (take n (c # cs))" if "1 \<le> n" for n
  proof -
    from that have "take n (c # cs) \<noteq> []" by (cases n) auto
    then show ?thesis using Cons.prems unfolding clean_def by blast
  qed
  then have "match_len r (c # cs) = None" by (simp add: match_len_None)
  moreover have "clean r cs"
    using Cons.prems by (rule clean_sublist) (simp add: sublist_Cons_right)
  ultimately show ?case using Cons.IH by simp
qed

lemma overlaps_inside: "v \<noteq> [] \<Longrightarrow> sublist v m \<Longrightarrow> overlaps v m"
  unfolding overlaps_def by (rule exI [of _ "[]"], rule exI [of _ v], rule exI [of _ "[]"]) simp

lemma overlaps_right: "b \<noteq> [] \<Longrightarrow> suffix b m \<Longrightarrow> overlaps (b @ y) m"
  unfolding overlaps_def by (rule exI [of _ "[]"], rule exI [of _ b], rule exI [of _ y]) simp

lemma overlaps_left: "b \<noteq> [] \<Longrightarrow> prefix b m \<Longrightarrow> overlaps (x @ b) m"
  unfolding overlaps_def by (rule exI [of _ x], rule exI [of _ b], rule exI [of _ "[]"]) simp

lemma overlaps_whole: "m \<noteq> [] \<Longrightarrow> overlaps (x @ m @ y) m"
  unfolding overlaps_def by (rule exI [of _ x], rule exI [of _ m], rule exI [of _ y]) simp

lemma sublist_after:
  assumes "sublist v (m @ y)" and "v \<noteq> []"
  shows "sublist v y \<or> overlaps v m"
proof -
  from assms(1) consider "sublist v m" | "sublist v y"
    | v1 v2 where "v = v1 @ v2" "suffix v1 m" "prefix v2 y"
    unfolding sublist_append by blast
  then show ?thesis
  proof cases
    case 1
    then show ?thesis using assms(2) overlaps_inside by blast
  next
    case 2
    then show ?thesis by blast
  next
    case 3
    show ?thesis
    proof (cases "v1 = []")
      case True
      with 3 show ?thesis by auto
    next
      case False
      with 3 show ?thesis using overlaps_right by blast
    qed
  qed
qed

lemma sublist_around:
  assumes "sublist v (p @ m @ y)" and "v \<noteq> []" and "m \<noteq> []"
  shows "sublist v p \<or> sublist v y \<or> overlaps v m"
proof -
  from assms(1) consider "sublist v p" | "sublist v (m @ y)"
    | v1 v2 where "v = v1 @ v2" "suffix v1 p" "prefix v2 (m @ y)"
    unfolding sublist_append [of v p] by blast
  then show ?thesis
  proof cases
    case 1
    then show ?thesis by blast
  next
    case 2
    then show ?thesis using sublist_after assms(2) by blast
  next
    case 3
    from 3(3) consider "prefix v2 m" | us where "v2 = m @ us" "prefix us y"
      unfolding prefix_append by blast
    then show ?thesis
    proof cases
      case 1
      show ?thesis
      proof (cases "v2 = []")
        case True
        with 3 show ?thesis by auto
      next
        case False
        with 1 3(1) show ?thesis using overlaps_left by blast
      qed
    next
      case 2
      with 3(1) assms(3) show ?thesis using overlaps_whole by blast
    qed
  qed
qed

lemma replace_all_keeps_clean:
  "\<forall>v. r' v \<longrightarrow> \<not> overlaps v m \<Longrightarrow> m \<noteq> [] \<Longrightarrow> r' = r \<or> clean r' t \<Longrightarrow>
   (\<forall>a n. suffix a pre \<longrightarrow> a \<noteq> [] \<longrightarrow> 0 < n \<longrightarrow> \<not> r' (take n (a @ t))) \<Longrightarrow>
   clean r' (pre @ replace_all r m t)"
proof (induction r m t arbitrary: pre rule: replace_all.induct)
  case (1 r m)
  show ?case
    unfolding clean_def
  proof (intro allI impI)
    fix v :: string
    assume v: "v \<noteq> []" and sub: "sublist v (pre @ replace_all r m [])"
    then obtain ps ss where pre: "pre = ps @ v @ ss" by (auto simp: sublist_def)
    have "suffix (v @ ss) pre" unfolding pre by (simp add: suffix_def)
    with "1.prems"(4) v have "\<not> r' (take (length v) ((v @ ss) @ []))" by fastforce
    then show "\<not> r' v" by simp
  qed
next
  case (2 r m c cs)
  show ?case
  proof (cases "match_len r (c # cs)")
    case None
    have own: "r' = r \<or> clean r' cs"
      using "2.prems"(3) clean_sublist [of r' "c # cs" cs] by (auto simp: sublist_Cons_right)
    have here: "\<not> r' (take n (c # cs))" if "0 < n" for n
    proof (cases "r' = r")
      case True
      show ?thesis
      proof (cases "n \<le> length (c # cs)")
        case True
        with None that \<open>r' = r\<close> show ?thesis by (simp add: match_len_None)
      next
        case False
        then have "take n (c # cs) = take (length (c # cs)) (c # cs)" by simp
        with None \<open>r' = r\<close> show ?thesis by (metis match_len_None le_refl length_Cons Suc_le_eq zero_less_Suc One_nat_def)
      qed
    next
      case False
      with "2.prems"(3) have "clean r' (c # cs)" by simp
      moreover from that have "take n (c # cs) \<noteq> []" by (cases n) auto
      ultimately show ?thesis unfolding clean_def by blast
    qed
    have pre': "\<forall>a n. suffix a (pre @ [c]) \<longrightarrow> a \<noteq> [] \<longrightarrow> 0 < n \<longrightarrow> \<not> r' (take n (a @ cs))"
    proof (intro allI impI)
      fix a :: string and n :: nat
      assume a: "suffix a (pre @ [c])" "a \<noteq> []" and n: "0 < n"
      then obtain a0 where a0: "a = a0 @ [c]" "suffix a0 pre" by auto
      show "\<not> r' (take n (a @ cs))"
      proof (cases "a0 = []")
        case True
        with a0 here [OF n] show ?thesis by simp
      next
        case False
        with "2.prems"(4) a0 n have "\<not> r' (take n (a0 @ c # cs))" by blast
        with a0 show ?thesis by simp
      qed
    qed
    from "2.IH"(1) [OF None "2.prems"(1,2) own pre'] None show ?thesis by simp
  next
    case (Some k)
    let ?rest = "replace_all r m (drop (k - 1) cs)"
    have own: "r' = r \<or> clean r' (drop (k - 1) cs)"
    proof -
      have "sublist (drop (k - 1) cs) (c # cs)"
        by (metis sublist_Cons_right sublist_drop)
      with "2.prems"(3) clean_sublist show ?thesis by blast
    qed
    have "clean r' ([] @ ?rest)"
      by (rule "2.IH"(2) [OF Some "2.prems"(1,2) own]) simp
    then have rest: "clean r' ?rest" by simp
    show ?thesis
      unfolding clean_def
    proof (intro allI impI)
      fix v :: string
      assume v: "v \<noteq> []" and sub: "sublist v (pre @ replace_all r m (c # cs))"
      from sub Some have "sublist v (pre @ m @ ?rest)" by simp
      from sublist_around [OF this v "2.prems"(2)]
      consider "sublist v pre" | "sublist v ?rest" | "overlaps v m" by blast
      then show "\<not> r' v"
      proof cases
        case 1
        then obtain ps ss where pre: "pre = ps @ v @ ss" by (auto simp: sublist_def)
        have "suffix (v @ ss) pre" unfolding pre by (simp add: suffix_def)
        with "2.prems"(4) v have "\<not> r' (take (length v) ((v @ ss) @ c # cs))" by fastforce
        then show ?thesis by simp
      next
        case 2
        with rest v show ?thesis unfolding clean_def by blast
      next
        case 3
        with "2.prems"(1) show ?thesis by blast
      qed
    qed
  qed
qed

lemma marker_nonempty: "marker name \<noteq> []"
  by (simp add: marker_def)

lemma replace_all_clean_after:
  assumes "\<forall>v. r' v \<longrightarrow> \<not> overlaps v m" and "m \<noteq> []" and "r' = r \<or> clean r' t"
  shows "clean r' (replace_all r m t)"
  using replace_all_keeps_clean [OF assms, of "[]"] by simp

text \<open>
  After the rules of a catalogue have been applied in order, no rule of the catalogue
  matches anywhere in the text.
\<close>

lemma foldl_clean:
  assumes "\<And>n r n' r' v. (n, r) \<in> set done \<union> set todo \<Longrightarrow> (n', r') \<in> set todo \<Longrightarrow> r v \<Longrightarrow>
             \<not> overlaps v (marker n')"
      and "\<And>n r. (n, r) \<in> set done \<Longrightarrow> clean r s"
      and "(n, r) \<in> set done \<union> set todo"
  shows "clean r (foldl (\<lambda>t (name, r). replace_all r (marker name) t) s todo)"
  using assms
proof (induction todo arbitrary: s "done")
  case Nil
  then show ?case by simp
next
  case (Cons p todo)
  obtain n1 r1 where p: "p = (n1, r1)" by (cases p)
  let ?s = "replace_all r1 (marker n1) s"
  have step: "clean r' ?s" if nr: "(n', r') \<in> set (done @ [p])" for n' r'
  proof -
    have "(n', r') \<in> set done \<union> set (p # todo)" using nr by auto
    moreover have "(n1, r1) \<in> set (p # todo)" using p by simp
    ultimately have H: "\<forall>v. r' v \<longrightarrow> \<not> overlaps v (marker n1)"
      using Cons.prems(1) by blast
    have "r' = r1 \<or> clean r' s"
    proof (cases "(n', r') \<in> set done")
      case True
      then show ?thesis using Cons.prems(2) by blast
    next
      case False
      with nr p show ?thesis by simp
    qed
    from replace_all_clean_after [OF H marker_nonempty this]
    show "clean r' ?s" .
  qed
  have H': "\<not> overlaps v (marker n'')"
    if "(n', r') \<in> set (done @ [p]) \<union> set todo" "(n'', r'') \<in> set todo" "r' v"
    for n' r' n'' r'' v
  proof -
    have "(n', r') \<in> set done \<union> set (p # todo)" using that(1) by auto
    moreover have "(n'', r'') \<in> set (p # todo)" using that(2) by simp
    ultimately show ?thesis using Cons.prems(1) that(3) by blast
  qed
  have mem: "(n, r) \<in> set (done @ [p]) \<union> set todo" using Cons.prems(3) by auto
  have "clean r (foldl (\<lambda>t (name, r). replace_all r (marker name) t) ?s todo)"
    by (rule Cons.IH [of "done @ [p]" ?s]) (use H' step mem in blast)+
  then show ?case by (simp add: p)
qed

lemma foldl_clean_id:
  "\<forall>(n, r) \<in> set cat. clean r t \<Longrightarrow>
     foldl (\<lambda>t (name, r). replace_all r (marker name) t) t cat = t"
  by (induction cat) (auto simp: replace_all_clean)

lemma redact_text_idempotent:
  assumes "avoids_markers cat"
  shows "redact_text cat (redact_text cat s) = redact_text cat s"
proof -
  have "clean r (redact_text cat s)" if "(n, r) \<in> set cat" for n r
    unfolding redact_text_def
  proof (rule foldl_clean [of "[]" cat _ n r])
    show "\<not> overlaps v (marker n'')"
      if "(n', r') \<in> set [] \<union> set cat" "(n'', r'') \<in> set cat" "r' v" for n' r' n'' r'' v
      using assms that unfolding avoids_markers_def by fastforce
  qed (use that in simp_all)
  then have "\<forall>(n, r) \<in> set cat. clean r (redact_text cat s)" by blast
  then show ?thesis
    unfolding redact_text_def [of cat "redact_text cat s"] by (rule foldl_clean_id)
qed

text \<open>
  Claim C9. Redaction is idempotent: for every value \<open>v\<close>,
  \<open>redact (redact v) = redact v\<close>. Redacting already-redacted text changes nothing
  because no rule of the catalogue matches a type-marker token, in the sense that no
  text matched by a rule overlaps a marker token.
\<close>

theorem C9_redaction_idempotent:
  assumes "avoids_markers cat"
  shows "redact cat (redact cat v) = redact cat v"
proof (induction v)
  case (PStr s)
  show ?case by (simp add: redact_text_idempotent [OF assms])
next
  case (PList vs)
  then show ?case by simp
next
  case (PDict kvs)
  then show ?case by (auto simp: map_prod_def split: prod.splits)
qed simp_all

lemma overlaps_common_char: "overlaps v m \<Longrightarrow> set v \<inter> set m \<noteq> {}"
proof -
  assume "overlaps v m"
  then obtain x b y where v: "v = x @ b @ y" and b: "b \<noteq> []" "sublist b m"
    unfolding overlaps_def by blast
  from b obtain c where "c \<in> set b" by (cases b) auto
  moreover from b(2) have "set b \<subseteq> set m" by (rule set_mono_sublist)
  ultimately show ?thesis using v by auto
qed

lemma toy_markers:
  "marker ''pin'' = ''[PIN_REDACTED]''" "marker ''handle'' = ''[HANDLE_REDACTED]''"
  by (simp_all add: marker_def upper_char_def)

lemma toy_alphabet:
  assumes "digits v \<or> handle v"
  shows "set v \<subseteq> set ''0123456789@abcdefghijklmnopqrstuvwxyz''"
proof (cases "digits v")
  case True
  then have "set v \<subseteq> set ''0123456789''" unfolding digits_def by blast
  moreover have "set ''0123456789'' \<subseteq> set ''0123456789@abcdefghijklmnopqrstuvwxyz''"
    by simp
  ultimately show ?thesis by (rule subset_trans)
next
  case False
  with assms have "handle v" by simp
  then obtain cs where v: "v = CHR ''@'' # cs"
    and cs: "set cs \<subseteq> set ''abcdefghijklmnopqrstuvwxyz''"
  proof (cases v)
    case Nil
    with \<open>handle v\<close> show ?thesis by simp
  next
    case (Cons c cs)
    with \<open>handle v\<close> have "c = CHR ''@''" and "set cs \<subseteq> set ''abcdefghijklmnopqrstuvwxyz''"
      unfolding Cons handle.simps by blast+
    with Cons that show ?thesis by blast
  qed
  have "set ''abcdefghijklmnopqrstuvwxyz'' \<subseteq> set ''0123456789@abcdefghijklmnopqrstuvwxyz''"
    by simp
  with cs have "set cs \<subseteq> set ''0123456789@abcdefghijklmnopqrstuvwxyz''"
    by (rule subset_trans)
  moreover have "CHR ''@'' \<in> set ''0123456789@abcdefghijklmnopqrstuvwxyz''" by simp
  ultimately show ?thesis unfolding v by simp
qed

lemma toy_avoids:
  assumes "digits v \<or> handle v" and "m = ''[PIN_REDACTED]'' \<or> m = ''[HANDLE_REDACTED]''"
  shows "\<not> overlaps v m"
proof
  assume "overlaps v m"
  then obtain c where c: "c \<in> set v" "c \<in> set m"
    using overlaps_common_char by blast
  from c(1) toy_alphabet [OF assms(1)]
  have "c \<in> set ''0123456789@abcdefghijklmnopqrstuvwxyz''" by blast
  moreover have "set ''[PIN_REDACTED]'' \<subseteq> set ''[PINHADLE_RCT]''"
    and "set ''[HANDLE_REDACTED]'' \<subseteq> set ''[PINHADLE_RCT]''"
    by simp_all
  with c(2) assms(2) have "c \<in> set ''[PINHADLE_RCT]''" by blast
  moreover have "set ''0123456789@abcdefghijklmnopqrstuvwxyz'' \<inter> set ''[PINHADLE_RCT]'' = {}"
    by simp
  ultimately show False by blast
qed

lemma toy_catalogue_avoids_markers: "avoids_markers toy_catalogue"
  unfolding avoids_markers_def toy_catalogue_def
  using toy_avoids by (simp add: toy_markers)

theorem C9_redaction_idempotent_witness:
  "avoids_markers toy_catalogue
   \<and> redact toy_catalogue
        (PDict [(''note'', PStr ''pin 1234 for @bob''), (''tries'', PList [PInt 3, PStr ''@al''])])
       = PDict [(''note'', PStr ''pin [PIN_REDACTED] for [HANDLE_REDACTED]''),
                (''tries'', PList [PInt 3, PStr ''[HANDLE_REDACTED]''])]
   \<and> redact toy_catalogue
        (PDict [(''note'', PStr ''pin [PIN_REDACTED] for [HANDLE_REDACTED]''),
                (''tries'', PList [PInt 3, PStr ''[HANDLE_REDACTED]''])])
       = PDict [(''note'', PStr ''pin [PIN_REDACTED] for [HANDLE_REDACTED]''),
                (''tries'', PList [PInt 3, PStr ''[HANDLE_REDACTED]''])]"
proof -
  have r: "redact toy_catalogue
        (PDict [(''note'', PStr ''pin 1234 for @bob''), (''tries'', PList [PInt 3, PStr ''@al''])])
       = PDict [(''note'', PStr ''pin [PIN_REDACTED] for [HANDLE_REDACTED]''),
                (''tries'', PList [PInt 3, PStr ''[HANDLE_REDACTED]''])]"
    by code_simp
  show ?thesis
    using toy_catalogue_avoids_markers r
      C9_redaction_idempotent [OF toy_catalogue_avoids_markers,
        of "PDict [(''note'', PStr ''pin 1234 for @bob''), (''tries'', PList [PInt 3, PStr ''@al''])]"]
    by simp
qed

end
